theory Spec2Isabelle
  imports Complex_Main "HOL-Library.Sublist"
begin

section \<open>Text primitives of the host language\<close>

text \<open>
  Strings are lists of 8-bit characters. The model follows Python's \<^verbatim>\<open>str\<close> on
  ASCII text: \<^verbatim>\<open>str.lower\<close>, \<^verbatim>\<open>str.strip\<close>, \<^verbatim>\<open>str.isspace\<close> and the
  regular-expression class \<^verbatim>\<open>\w\<close> are given for the code points below 128.
\<close>

definition is_space :: "char \<Rightarrow> bool" where
  "is_space c = (let n = (of_char c :: nat) in (9 \<le> n \<and> n \<le> 13) \<or> (28 \<le> n \<and> n \<le> 32))"

definition lower_char :: "char \<Rightarrow> char" where
  "lower_char c = (let n = (of_char c :: nat) in if 65 \<le> n \<and> n \<le> 90 then char_of (n + 32) else c)"

definition lower :: "string \<Rightarrow> string" where
  "lower s = map lower_char s"

definition strip :: "string \<Rightarrow> string" where
  "strip s = rev (dropWhile is_space (rev (dropWhile is_space s)))"

definition is_word :: "char \<Rightarrow> bool" where
  "is_word c = (let n = (of_char c :: nat) in
     (48 \<le> n \<and> n \<le> 57) \<or> (65 \<le> n \<and> n \<le> 90) \<or> n = 95 \<or> (97 \<le> n \<and> n \<le> 122))"

fun str_nat :: "nat \<Rightarrow> string" where
  "str_nat n = (if n < 10 then [char_of (48 + n)] else str_nat (n div 10) @ [char_of (48 + n mod 10)])"

declare str_nat.simps [simp del]

definition str_int :: "int \<Rightarrow> string" where
  "str_int i = (if i < 0 then CHR ''-'' # str_nat (nat (- i)) else str_nat (nat i))"

section \<open>Configuration\<close>

text \<open>The module-level settings read from the environment at start-up.\<close>

record config =
  API_KEY :: string
  DEFAULT_STEPS :: int
  DEFAULT_CFG :: real
  DEFAULT_WIDTH :: int
  DEFAULT_HEIGHT :: int
  MODEL_NAME :: string
  ENABLE_SAFETY :: bool

definition default_config :: config where
  "default_config = \<lparr> API_KEY = '''', DEFAULT_STEPS = 32, DEFAULT_CFG = 6, DEFAULT_WIDTH = 1024,
     DEFAULT_HEIGHT = 1024, MODEL_NAME = ''juggernautXL_v9.safetensors'', ENABLE_SAFETY = True \<rparr>"

section \<open>Mandatory negative prompt\<close>

definition GLOBAL_NEGATIVE_PROMPT :: string where
  "GLOBAL_NEGATIVE_PROMPT =
     [CHR 0x0A] @ ''celebrity, famous person, actor, actress, influencer, model,''
   @ [CHR 0x0A] @ ''real person, known face, instagram face, tiktok face,''
   @ [CHR 0x0A] @ ''beauty filter, airbrushed skin, plastic skin,''
   @ [CHR 0x0A] @ ''anime, illustration, painting, cgi, 3d render,''
   @ [CHR 0x0A] @ ''teen, teenage, young-looking, childlike, youthful face,''
   @ [CHR 0x0A] @ ''school uniform, student, cosplay,''
   @ [CHR 0x0A] @ ''distorted face, extra fingers, deformed eyes''
   @ [CHR 0x0A]"

text \<open>The block as it is appended: the constant without its first and last line break.\<close>

definition mandatory_block :: string where
  "mandatory_block =
     ''celebrity, famous person, actor, actress, influencer, model,''
   @ [CHR 0x0A] @ ''real person, known face, instagram face, tiktok face,''
   @ [CHR 0x0A] @ ''beauty filter, airbrushed skin, plastic skin,''
   @ [CHR 0x0A] @ ''anime, illustration, painting, cgi, 3d render,''
   @ [CHR 0x0A] @ ''teen, teenage, young-looking, childlike, youthful face,''
   @ [CHR 0x0A] @ ''school uniform, student, cosplay,''
   @ [CHR 0x0A] @ ''distorted face, extra fingers, deformed eyes''"

definition build_safe_prompt :: "string \<Rightarrow> string \<Rightarrow> string \<times> string" where
  "build_safe_prompt prompt negative_prompt =
     (let safe_prompt = strip prompt;
          combined_negative = strip GLOBAL_NEGATIVE_PROMPT;
          combined_negative =
            (if negative_prompt \<noteq> [] then negative_prompt @ '', '' @ combined_negative
             else combined_negative)
      in (safe_prompt, strip combined_negative))"

section \<open>Prompt firewall\<close>

text \<open>
  The fragment of Python's \<^verbatim>\<open>re\<close> syntax that the blocked patterns use: literal text,
  \<^verbatim>\<open>x?\<close>, concatenation, \<^verbatim>\<open>a|b\<close> and the word boundary \<^verbatim>\<open>\b\<close>.
\<close>

datatype rx = Lit string | Opt rx | Seq rx rx | Alt rx rx | WordB

definition word_at :: "string \<Rightarrow> nat \<Rightarrow> bool" where
  "word_at s i = (i < length s \<and> is_word (s ! i))"

definition at_boundary :: "string \<Rightarrow> nat \<Rightarrow> bool" where
  "at_boundary s i = ((if i = 0 then False else word_at s (i - 1)) \<noteq> word_at s i)"

definition chars_eq :: "bool \<Rightarrow> string \<Rightarrow> string \<Rightarrow> bool" where
  "chars_eq ignorecase a b = (if ignorecase then lower a = lower b else a = b)"

text \<open>
  \<open>rx_match ic r s i\<close> lists the positions at which a match of \<open>r\<close> that starts at
  position \<open>i\<close> of \<open>s\<close> can end; \<open>ic\<close> is the flag \<^verbatim>\<open>re.IGNORECASE\<close>.
\<close>

fun rx_match :: "bool \<Rightarrow> rx \<Rightarrow> string \<Rightarrow> nat \<Rightarrow> nat list" where
  "rx_match ic (Lit w) s i =
     (if i + length w \<le> length s \<and> chars_eq ic (take (length w) (drop i s)) w
      then [i + length w] else [])"
| "rx_match ic (Opt r) s i = rx_match ic r s i @ [i]"
| "rx_match ic (Seq r1 r2) s i = concat (map (rx_match ic r2 s) (rx_match ic r1 s i))"
| "rx_match ic (Alt r1 r2) s i = rx_match ic r1 s i @ rx_match ic r2 s i"
| "rx_match ic WordB s i = (if at_boundary s i then [i] else [])"

definition re_search :: "bool \<Rightarrow> rx \<Rightarrow> string \<Rightarrow> bool" where
  "re_search ic r s = list_ex (\<lambda>i. rx_match ic r s i \<noteq> []) [0..<Suc (length s)]"

fun alts :: "rx list \<Rightarrow> rx" where
  "alts [] = Lit []"
| "alts [r] = r"
| "alts (r # rs) = Alt r (alts rs)"

text \<open>The shape every blocked pattern has: \<^verbatim>\<open>\b(a|b|...)\b\<close>.\<close>

definition bounded_group :: "rx list \<Rightarrow> rx" where
  "bounded_group rs = Seq WordB (Seq (alts rs) WordB)"

definition BLOCKED_PATTERNS :: "(string \<times> rx) list" where
  "BLOCKED_PATTERNS =
    [(''celebrities'', bounded_group
        [Lit ''taylor swift'', Lit ''scarlett johansson'', Lit ''emma watson'',
         Lit ''jennifer lawrence'', Lit ''megan fox'', Lit ''kim kardashian'',
         Lit ''ariana grande'', Lit ''selena gomez'', Lit ''beyonce'', Lit ''rihanna'',
         Lit ''angelina jolie'', Lit ''margot robbie'', Lit ''gal gadot'', Lit ''zendaya'',
         Lit ''billie eilish'']),
     (''professions'', bounded_group
        [Lit ''actress'', Lit ''actor'', Lit ''famous model'', Lit ''influencer'',
         Lit ''celebrity'', Lit ''famous person'']),
     (''references'', bounded_group
        [Seq (Lit ''look'') (Seq (Opt (Lit ''s'')) (Lit '' like'')),
         Seq (Lit ''resemble'') (Opt (Lit ''s'')),
         Lit ''similar to'', Lit ''based on'', Lit ''inspired by'']),
     (''age_down'', bounded_group
        [Lit ''younger'', Lit ''teen'', Lit ''teenage'', Lit ''underage'', Lit ''school'',
         Lit ''student'', Lit ''childlike'', Lit ''loli'', Lit ''shota'']),
     (''uniforms'', bounded_group
        [Lit ''school uniform'', Lit ''cheerleader uniform'', Lit ''schoolgirl'',
         Lit ''college girl uniform'']),
     (''face_swap'', bounded_group
        [Lit ''face swap'', Lit ''deepfake'', Lit ''my face'', Lit ''her face'',
         Lit ''his face'', Lit ''real photo of'']),
     (''illegal'', bounded_group
        [Lit ''child'', Lit ''minor'', Lit ''kid'', Lit ''forced'',
         Seq (Lit ''non'') (Seq (Opt (Lit ''-'')) (Lit ''consensual'')), Lit ''rape''])]"

text \<open>The loop over the items of the pattern table, in insertion order.\<close>

fun first_blocked :: "(string \<times> rx) list \<Rightarrow> string \<Rightarrow> bool \<times> string" where
  "first_blocked [] prompt_lower = (True, '''')"
| "first_blocked ((category, pattern) # rest) prompt_lower =
     (if re_search True pattern prompt_lower
      then (False, ''Prompt rejected: '' @ category @ '' content not allowed'')
      else first_blocked rest prompt_lower)"

definition validate_prompt :: "config \<Rightarrow> string \<Rightarrow> bool \<times> string" where
  "validate_prompt cfg prompt =
     (if \<not> ENABLE_SAFETY cfg then (True, '''')
      else first_blocked BLOCKED_PATTERNS (lower prompt))"

section \<open>JSON values\<close>

text \<open>
  The dictionaries the service builds and sends (the engine's job graph, the audit entry,
  the callback bodies) are JSON values; a dictionary keeps its items in insertion order.
\<close>

datatype json =
    JNull
  | JBool bool
  | JInt int
  | JFloat real
  | JStr string
  | JList "json list"
  | JDict "(string \<times> json) list"

text \<open>Reading and overwriting the value under a path of dictionary keys.\<close>

fun jget :: "json \<Rightarrow> string list \<Rightarrow> json option" where
  "jget j [] = Some j"
| "jget (JDict kvs) (k # ks) = (case map_of kvs k of None \<Rightarrow> None | Some v \<Rightarrow> jget v ks)"
| "jget _ (k # ks) = None"

fun jset :: "string list \<Rightarrow> json \<Rightarrow> json \<Rightarrow> json" where
  "jset [] v j = v"
| "jset (k # ks) v (JDict kvs) =
     JDict (map (\<lambda>(k', x). if k' = k then (k', jset ks v x) else (k', x)) kvs)"
| "jset (k # ks) v j = j"

section \<open>Job graph builder\<close>

definition build_comfyui_workflow ::
  "string \<Rightarrow> string \<Rightarrow> int \<Rightarrow> int \<Rightarrow> real \<Rightarrow> int \<Rightarrow> int \<Rightarrow> string \<Rightarrow> json" where
  "build_comfyui_workflow prompt negative_prompt seed steps cfg width height model_name =
     JDict
      [(''3'', JDict
         [(''class_type'', JStr ''KSampler''),
          (''inputs'', JDict
            [(''seed'', JInt seed),
             (''steps'', JInt steps),
             (''cfg'', JFloat cfg),
             (''sampler_name'', JStr ''dpmpp_2m''),
             (''scheduler'', JStr ''karras''),
             (''denoise'', JFloat 1.0),
             (''model'', JList [JStr ''4'', JInt 0]),
             (''positive'', JList [JStr ''6'', JInt 0]),
             (''negative'', JList [JStr ''7'', JInt 0]),
             (''latent_image'', JList [JStr ''5'', JInt 0])])]),
       (''4'', JDict
         [(''class_type'', JStr ''CheckpointLoaderSimple''),
          (''inputs'', JDict
            [(''ckpt_name'', JStr model_name)])]),
       (''5'', JDict
         [(''class_type'', JStr ''EmptyLatentImage''),
          (''inputs'', JDict
            [(''width'', JInt width),
             (''height'', JInt height),
             (''batch_size'', JInt 1)])]),
       (''6'', JDict
         [(''class_type'', JStr ''CLIPTextEncode''),
          (''inputs'', JDict
            [(''text'', JStr prompt),
             (''clip'', JList [JStr ''4'', JInt 1])])]),
       (''7'', JDict
         [(''class_type'', JStr ''CLIPTextEncode''),
          (''inputs'', JDict
            [(''text'', JStr negative_prompt),
             (''clip'', JList [JStr ''4'', JInt 1])])]),
       (''8'', JDict
         [(''class_type'', JStr ''VAEDecode''),
          (''inputs'', JDict
            [(''samples'', JList [JStr ''3'', JInt 0]),
             (''vae'', JList [JStr ''4'', JInt 2])])]),
       (''9'', JDict
         [(''class_type'', JStr ''SaveImage''),
          (''inputs'', JDict
            [(''filename_prefix'', JStr ''xinmate''),
             (''images'', JList [JStr ''8'', JInt 0])])])]"

text \<open>The node ids of a graph, and its wiring: every input that refers to another node.\<close>

definition node_ids :: "json \<Rightarrow> string list" where
  "node_ids g = (case g of JDict nodes \<Rightarrow> map fst nodes | _ \<Rightarrow> [])"

definition links_of :: "json \<Rightarrow> (string \<times> json) list" where
  "links_of node =
     (case jget node [''inputs''] of
        Some (JDict ins) \<Rightarrow> filter (\<lambda>(name, v). case v of JList _ \<Rightarrow> True | _ \<Rightarrow> False) ins
      | _ \<Rightarrow> [])"

definition wiring :: "json \<Rightarrow> (string \<times> json option \<times> (string \<times> json) list) list" where
  "wiring g =
     (case g of
        JDict nodes \<Rightarrow> map (\<lambda>(node_id, node). (node_id, jget node [''class_type''], links_of node)) nodes
      | _ \<Rightarrow> [])"

section \<open>Errors, collaborators and effects\<close>

text \<open>
  An exception is either the framework's \<^verbatim>\<open>HTTPException\<close> (status code, detail) or any
  other exception, kept by its message \<^verbatim>\<open>str(e)\<close>.
\<close>

datatype exn = HTTPException nat string | Exception string

definition str_exn :: "exn \<Rightarrow> string" where
  "str_exn e = (case e of HTTPException status detail \<Rightarrow> str_nat status @ '': '' @ detail
                        | Exception msg \<Rightarrow> msg)"

text \<open>A call into a library either raises (with the message of the exception) or returns.\<close>

datatype 'a outcome = Raises string | Returns 'a

type_synonym bytes = string

record 'b response =
  status_code :: nat
  body_text :: string
  body :: 'b

text \<open>
  The engine's status document: a dictionary from job id to a record whose \<^verbatim>\<open>outputs\<close>
  maps node ids to \<^verbatim>\<open>{images: [{filename, subfolder}]}\<close>. A key that may be absent is an
  option; \<open>outputs\<close> is the item sequence of the dictionary.
\<close>

record image_info =
  filename :: "string option"
  subfolder :: "string option"

record node_output =
  images :: "image_info list option"

record engine_record =
  outputs :: "(string \<times> node_output) list option"

type_synonym history = "string \<rightharpoonup> engine_record"

text \<open>
  One round of the poll loop as the outside world decides it: how long the status query
  takes, what it answers, and by how much the one-second sleep overshoots. Times are in
  milliseconds.
\<close>

record poll_tick =
  latency :: nat
  reply :: "history outcome response outcome"
  oversleep :: nat

text \<open>
  Everything one request observes of its collaborators: the engine's answers, the file
  system, the callback receiver (by attempt number), the two \<^verbatim>\<open>uuid4()\<close> draws (as the
  128-bit integer), the clock, and the library's SHA-256 hex digest.
\<close>

record world =
  submit_reply :: "json \<Rightarrow> string outcome response outcome"
  history_reply :: "nat \<Rightarrow> poll_tick"
  view_reply :: "string \<Rightarrow> string \<Rightarrow> bytes response outcome"
  file_write :: "string \<Rightarrow> bytes \<Rightarrow> unit outcome"
  callback_reply :: "nat \<Rightarrow> unit outcome"
  uuid4_seed :: nat
  uuid4_file :: nat
  utcnow_isoformat :: string
  sha256_hexdigest :: "bytes \<Rightarrow> string"

text \<open>The effects of a run, in order. Request timeouts are in seconds.\<close>

datatype event =
    EngineSubmit json nat
  | ClockRead nat
  | EngineHistory string
  | Sleep nat
  | EngineView string string
  | FileWrite string bytes
  | AuditLog json
  | LogInfo string
  | LogError string
  | CallbackPost string json nat

type_synonym 'a run = "(exn + 'a) \<times> event list"

definition bind_run :: "'a run \<Rightarrow> ('a \<Rightarrow> 'b run) \<Rightarrow> 'b run" where
  "bind_run m f =
     (case m of
        (Inl e, t) \<Rightarrow> (Inl e, t)
      | (Inr x, t) \<Rightarrow> (case f x of (r, t') \<Rightarrow> (r, t @ t')))"

section \<open>Job tracker\<close>

definition queue_prompt :: "world \<Rightarrow> json \<Rightarrow> string run" where
  "queue_prompt W workflow =
     (case submit_reply W workflow of
        Raises m \<Rightarrow> (Inl (Exception m), [EngineSubmit workflow 30])
      | Returns r \<Rightarrow>
          if status_code r \<noteq> 200
          then (Inl (HTTPException 500 (''ComfyUI error: '' @ body_text r)), [EngineSubmit workflow 30])
          else (case body r of
                  Raises m \<Rightarrow> (Inl (Exception m), [EngineSubmit workflow 30])
                | Returns prompt_id \<Rightarrow> (Inr prompt_id, [EngineSubmit workflow 30])))"

text \<open>
  The poll loop. \<open>i\<close> counts the rounds and \<open>elapsed\<close> is the time since the loop
  started, in milliseconds; \<open>timeout\<close> is in seconds.
\<close>

function wait_loop :: "world \<Rightarrow> string \<Rightarrow> int \<Rightarrow> nat \<Rightarrow> nat \<Rightarrow> engine_record run" where
  "wait_loop W prompt_id timeout i elapsed =
     (if int elapsed > timeout * 1000
      then (Inl (HTTPException 504 (''Generation timeout after '' @ str_int timeout @ ''s'')),
            [ClockRead elapsed])
      else
        let tick = history_reply W i;
            again = (case wait_loop W prompt_id timeout (Suc i)
                            (elapsed + latency tick + 1000 + oversleep tick) of
                       (r, t) \<Rightarrow> (r, [ClockRead elapsed, EngineHistory prompt_id, Sleep 1] @ t))
        in case reply tick of
             Raises m \<Rightarrow> (Inl (Exception m), [ClockRead elapsed, EngineHistory prompt_id])
           | Returns r \<Rightarrow>
               if status_code r = 200
               then (case body r of
                       Raises m \<Rightarrow> (Inl (Exception m), [ClockRead elapsed, EngineHistory prompt_id])
                     | Returns history \<Rightarrow>
                         (case history prompt_id of
                            Some entry \<Rightarrow> (Inr entry, [ClockRead elapsed, EngineHistory prompt_id])
                          | None \<Rightarrow> again))
               else again)"
  by pat_completeness auto
termination
  by (relation "measure (\<lambda>(W, prompt_id, timeout, i, elapsed). nat (timeout * 1000 + 1 - int elapsed))")
     auto

declare wait_loop.simps [simp del]

definition wait_for_completion :: "world \<Rightarrow> string \<Rightarrow> int \<Rightarrow> engine_record run" where
  "wait_for_completion W prompt_id timeout = wait_loop W prompt_id timeout 0 0"

text \<open>The inner loop over the images of one output node; \<open>Inr None\<close>: the loop ran out.\<close>

fun scan_images :: "world \<Rightarrow> image_info list \<Rightarrow> (string \<times> bytes) option run" where
  "scan_images W [] = (Inr None, [])"
| "scan_images W (info # rest) =
     (case filename info of
        None \<Rightarrow> (Inl (Exception ([CHR 0x27] @ ''filename'' @ [CHR 0x27])), [])
      | Some fname \<Rightarrow>
          let sub = (case subfolder info of None \<Rightarrow> [] | Some d \<Rightarrow> d) in
          (case view_reply W fname sub of
             Raises m \<Rightarrow> (Inl (Exception m), [EngineView fname sub])
           | Returns r \<Rightarrow>
               if status_code r = 200 then (Inr (Some (fname, body r)), [EngineView fname sub])
               else (case scan_images W rest of (res, t) \<Rightarrow> (res, EngineView fname sub # t))))"

fun scan_outputs :: "world \<Rightarrow> (string \<times> node_output) list \<Rightarrow> (string \<times> bytes) run" where
  "scan_outputs W [] = (Inl (HTTPException 500 ''No image found in output''), [])"
| "scan_outputs W ((node_id, out) # rest) =
     (case images out of
        None \<Rightarrow> scan_outputs W rest
      | Some infos \<Rightarrow>
          (case scan_images W infos of
             (Inl e, t) \<Rightarrow> (Inl e, t)
           | (Inr (Some found), t) \<Rightarrow> (Inr found, t)
           | (Inr None, t) \<Rightarrow> (case scan_outputs W rest of (res, t') \<Rightarrow> (res, t @ t'))))"

definition get_generated_image :: "world \<Rightarrow> engine_record \<Rightarrow> (string \<times> bytes) run" where
  "get_generated_image W history =
     scan_outputs W (case outputs history of None \<Rightarrow> [] | Some items \<Rightarrow> items)"

section \<open>Result persister\<close>

definition hex_digit :: "nat \<Rightarrow> char" where
  "hex_digit d = (if d < 10 then char_of (48 + d) else char_of (87 + d))"

text \<open>\<^verbatim>\<open>uuid.hex\<close>: the 128-bit integer as 32 lower-case hexadecimal digits.\<close>

definition uuid_hex :: "nat \<Rightarrow> string" where
  "uuid_hex n = map (\<lambda>k. hex_digit ((n div 16 ^ (31 - k)) mod 16)) [0..<32]"

definition dict_get :: "(string \<rightharpoonup> json) \<Rightarrow> string \<Rightarrow> json" where
  "dict_get d k = (case d k of None \<Rightarrow> JNull | Some v \<Rightarrow> v)"

definition save_and_hash_image :: "world \<Rightarrow> bytes \<Rightarrow> (string \<rightharpoonup> json) \<Rightarrow> (string \<times> string) run" where
  "save_and_hash_image W image_data metadata =
     (let ihash = take 16 (sha256_hexdigest W image_data);
          fname = ihash @ ''_'' @ take 8 (uuid_hex (uuid4_file W)) @ ''.png''
      in case file_write W fname image_data of
           Raises m \<Rightarrow> (Inl (Exception m), [FileWrite fname image_data])
         | Returns _ \<Rightarrow>
             (case (case metadata ''prompt'' of
                      None \<Rightarrow> Returns []
                    | Some (JStr p) \<Rightarrow> Returns p
                    | Some _ \<Rightarrow> Raises ''object has no attribute encode'') of
                Raises m \<Rightarrow> (Inl (Exception m), [FileWrite fname image_data])
              | Returns p \<Rightarrow>
                  let audit_entry = JDict
                        [(''image_hash'', JStr ihash),
                         (''filename'', JStr fname),
                         (''timestamp'', JStr (utcnow_isoformat W)),
                         (''persona_id'', dict_get metadata ''persona_id''),
                         (''user_id'', dict_get metadata ''user_id''),
                         (''seed'', dict_get metadata ''seed''),
                         (''prompt_hash'', JStr (take 16 (sha256_hexdigest W p)))]
                  in (Inr (fname, ihash), [FileWrite fname image_data, AuditLog audit_entry])))"

section \<open>Requests and responses\<close>

record GenerateResponse =
  success :: bool
  image_url :: "string option"
  image_hash :: "string option"
  seed_used :: "int option"
  error :: "string option"

record AsyncQueuedResponse =
  status :: string
  request_id :: string
  message :: string

record GenerateRequest =
  prompt :: string
  negative_prompt :: "string option"
  seed :: "int option"
  steps :: "int option"
  cfg_scale :: "real option"
  width :: "int option"
  height :: "int option"
  face_reference :: "string option"
  face_weight :: "real option"
  persona_id :: "string option"
  user_id :: "string option"

record GenerateAsyncRequest = GenerateRequest +
  request_id :: string
  callback_url :: string

section \<open>Authentication\<close>

definition verify_api_key :: "config \<Rightarrow> string option \<Rightarrow> exn + bool" where
  "verify_api_key cfg creds =
     (if API_KEY cfg = [] then Inr True
      else (case creds of
              None \<Rightarrow> Inl (HTTPException 401 ''Invalid or missing API key'')
            | Some credentials \<Rightarrow>
                if credentials \<noteq> API_KEY cfg
                then Inl (HTTPException 401 ''Invalid or missing API key'')
                else Inr True))"

section \<open>Orchestrator\<close>

text \<open>\<^verbatim>\<open>x or d\<close> on an optional number: \<^verbatim>\<open>None\<close> and zero are both false.\<close>

definition or_default :: "'a::zero option \<Rightarrow> 'a \<Rightarrow> 'a" where
  "or_default x d = (case x of None \<Rightarrow> d | Some v \<Rightarrow> if v = 0 then d else v)"

text \<open>\<^verbatim>\<open>req.seed if req.seed and req.seed > 0 else int(uuid.uuid4().int % (2**32))\<close>\<close>

definition resolve_seed :: "world \<Rightarrow> int option \<Rightarrow> int" where
  "resolve_seed W s =
     (case s of
        None \<Rightarrow> int (uuid4_seed W mod 2 ^ 32)
      | Some v \<Rightarrow> if v \<noteq> 0 \<and> v > 0 then v else int (uuid4_seed W mod 2 ^ 32))"

definition opt_json :: "string option \<Rightarrow> json" where
  "opt_json x = (case x of None \<Rightarrow> JNull | Some v \<Rightarrow> JStr v)"

text \<open>The job graph a request is turned into, from its resolved parameters.\<close>

definition request_workflow :: "world \<Rightarrow> config \<Rightarrow> 'a GenerateRequest_scheme \<Rightarrow> json" where
  "request_workflow W cfg req =
     (let (safe_prompt, safe_negative) =
            build_safe_prompt (prompt req) (case negative_prompt req of None \<Rightarrow> [] | Some n \<Rightarrow> n);
          seed_v = resolve_seed W (seed req);
          steps_v = or_default (steps req) (DEFAULT_STEPS cfg);
          cfg_v = or_default (cfg_scale req) (DEFAULT_CFG cfg);
          width_v = or_default (width req) (DEFAULT_WIDTH cfg);
          height_v = or_default (height req) (DEFAULT_HEIGHT cfg)
      in build_comfyui_workflow safe_prompt safe_negative seed_v steps_v cfg_v width_v height_v
           (MODEL_NAME cfg))"

text \<open>
  The statements that \<^verbatim>\<open>generate_image\<close> and \<^verbatim>\<open>process_async_generation\<close> share word for
  word: build the graph, queue it, wait (with the default deadline of 300 seconds), fetch
  the image, save it. The result is the stored file name, the image hash and the seed.
\<close>

definition generation_body ::
  "world \<Rightarrow> config \<Rightarrow> 'a GenerateRequest_scheme \<Rightarrow> (string \<times> string \<times> int) run" where
  "generation_body W cfg req =
     (let seed_v = resolve_seed W (seed req);
          workflow = request_workflow W cfg req
      in bind_run (queue_prompt W workflow) (\<lambda>prompt_id.
         bind_run (wait_for_completion W prompt_id 300) (\<lambda>history.
         bind_run (get_generated_image W history) (\<lambda>(_, image_data).
         bind_run (save_and_hash_image W image_data
                     [''prompt'' \<mapsto> JStr (prompt req),
                      ''seed'' \<mapsto> JInt seed_v,
                      ''persona_id'' \<mapsto> opt_json (persona_id req),
                      ''user_id'' \<mapsto> opt_json (user_id req)]) (\<lambda>(fname, ihash).
         (Inr (fname, ihash, seed_v), []))))))"

text \<open>
  \<^verbatim>\<open>POST /generate\<close>. A left result is an exception that leaves the handler, which the
  framework answers with that HTTP status; a right result is the body of a 200 response.
\<close>

definition generate_image ::
  "world \<Rightarrow> config \<Rightarrow> string option \<Rightarrow> 'a GenerateRequest_scheme \<Rightarrow> GenerateResponse run" where
  "generate_image W cfg creds req =
     (case verify_api_key cfg creds of
        Inl e \<Rightarrow> (Inl e, [])
      | Inr _ \<Rightarrow>
          (case validate_prompt cfg (prompt req) of (is_valid, err) \<Rightarrow>
             if \<not> is_valid then (Inl (HTTPException 400 err), [])
             else
               (case generation_body W cfg req of
                  (Inr (fname, ihash, seed_v), t) \<Rightarrow>
                    (Inr \<lparr> success = True, image_url = Some (''/images/'' @ fname),
                           image_hash = Some ihash, seed_used = Some seed_v, error = None \<rparr>, t)
                | (Inl (HTTPException code detail), t) \<Rightarrow> (Inl (HTTPException code detail), t)
                | (Inl (Exception m), t) \<Rightarrow>
                    (Inr \<lparr> success = False, image_url = None, image_hash = None,
                           seed_used = None, error = Some m \<rparr>,
                     t @ [LogError (''Generation failed: '' @ m)]))))"

text \<open>
  The handler of a failed background run: log, then one POST of the failure body, whose
  own failure is passed over in silence. \<open>k\<close> numbers the POST among the attempts made.
\<close>

definition send_error_callback :: "world \<Rightarrow> GenerateAsyncRequest \<Rightarrow> nat \<Rightarrow> string \<Rightarrow> unit run" where
  "send_error_callback W req k msg =
     (let error_data = JDict
            [(''request_id'', JStr (request_id req)),
             (''status'', JStr ''failed''),
             (''error'', JStr msg),
             (''user_id'', opt_json (user_id req))];
          t = [LogError (''Async generation failed for '' @ request_id req @ '': '' @ msg),
               CallbackPost (callback_url req) error_data 10]
      in case callback_reply W k of
           Raises _ \<Rightarrow> (Inr (), t)
         | Returns _ \<Rightarrow> (Inr (), t))"

definition process_async_generation :: "world \<Rightarrow> config \<Rightarrow> GenerateAsyncRequest \<Rightarrow> unit run" where
  "process_async_generation W cfg req =
     (case generation_body W cfg req of
        (Inr (fname, ihash, seed_v), t) \<Rightarrow>
          let callback_data = JDict
                [(''request_id'', JStr (request_id req)),
                 (''status'', JStr ''completed''),
                 (''image_url'', JStr (''/images/'' @ fname)),
                 (''image_hash'', JStr ihash),
                 (''seed_used'', JInt seed_v),
                 (''user_id'', opt_json (user_id req)),
                 (''persona_id'', opt_json (persona_id req))]
          in (case callback_reply W 0 of
                Returns _ \<Rightarrow>
                  (Inr (), t @ [CallbackPost (callback_url req) callback_data 10,
                                LogInfo (''Callback sent for '' @ request_id req)])
              | Raises m \<Rightarrow>
                  (case send_error_callback W req 1 m of
                     (r, t') \<Rightarrow> (r, t @ [CallbackPost (callback_url req) callback_data 10] @ t')))
      | (Inl e, t) \<Rightarrow>
          (case send_error_callback W req 0 (str_exn e) of (r, t') \<Rightarrow> (r, t @ t')))"

text \<open>
  \<^verbatim>\<open>POST /generate-async\<close>: the response, and the requests handed to the background
  tasks.
\<close>

definition generate_image_async ::
  "config \<Rightarrow> string option \<Rightarrow> GenerateAsyncRequest
     \<Rightarrow> (exn + AsyncQueuedResponse) \<times> GenerateAsyncRequest list" where
  "generate_image_async cfg creds req =
     (case verify_api_key cfg creds of
        Inl e \<Rightarrow> (Inl e, [])
      | Inr _ \<Rightarrow>
          (case validate_prompt cfg (prompt req) of (is_valid, err) \<Rightarrow>
             if \<not> is_valid then (Inl (HTTPException 400 err), [])
             else (Inr \<lparr> status = ''queued'', request_id = request_id req,
                         message = ''Image generation started in background'' \<rparr>, [req])))"

section \<open>Sample collaborators and requests\<close>

text \<open>
  Concrete inputs for the examples below. In \<open>calm_world\<close> the engine accepts the job,
  reports it complete at the first status query and serves the image; every other call
  succeeds as well. The digest is a stand-in with the right shape (64 hexadecimal digits).
\<close>

definition sample_record :: engine_record where
  "sample_record =
     \<lparr> outputs = Some [(''9'', \<lparr> images = Some [\<lparr> filename = Some ''xinmate_00001_.png'',
                                                    subfolder = Some [] \<rparr>] \<rparr>)] \<rparr>"

definition toy_digest :: "bytes \<Rightarrow> string" where
  "toy_digest b = replicate 64 (hex_digit (length b mod 16))"

definition calm_world :: world where
  "calm_world =
     \<lparr> submit_reply = (\<lambda>_. Returns \<lparr> status_code = 200, body_text = ''ok'', body = Returns ''job-1'' \<rparr>),
       history_reply = (\<lambda>_. \<lparr> latency = 20,
                               reply = Returns \<lparr> status_code = 200, body_text = ''ok'',
                                                 body = Returns [''job-1'' \<mapsto> sample_record] \<rparr>,
                               oversleep = 0 \<rparr>),
       view_reply = (\<lambda>_ _. Returns \<lparr> status_code = 200, body_text = [], body = ''PNG'' \<rparr>),
       file_write = (\<lambda>_ _. Returns ()),
       callback_reply = (\<lambda>_. Returns ()),
       uuid4_seed = 2 ^ 32 + 7,
       uuid4_file = 11 * 16 ^ 31,
       utcnow_isoformat = ''2024-05-01T12:00:00'',
       sha256_hexdigest = toy_digest \<rparr>"

definition sample_request :: GenerateRequest where
  "sample_request =
     \<lparr> prompt = ''a lake'', negative_prompt = None, seed = Some 42, steps = None,
       cfg_scale = None, width = None, height = None, face_reference = None,
       face_weight = Some 0.7, persona_id = None, user_id = Some ''u1'' \<rparr>"

definition sample_async_request :: GenerateAsyncRequest where
  "sample_async_request =
     \<lparr> prompt = ''a lake'', negative_prompt = None, seed = Some 42, steps = None,
       cfg_scale = None, width = None, height = None, face_reference = None,
       face_weight = Some 0.7, persona_id = None, user_id = Some ''u1'',
       request_id = ''abc123'', callback_url = ''http://client/hook'' \<rparr>"

text \<open>Variations: one collaborator misbehaves, the others stay calm.\<close>

definition refusing_world :: world where
  "refusing_world =
     calm_world\<lparr> submit_reply :=
       (\<lambda>_. Returns \<lparr> status_code = 503, body_text = ''busy'', body = Raises ''Expecting value'' \<rparr>) \<rparr>"

definition offline_world :: world where
  "offline_world = calm_world\<lparr> submit_reply := (\<lambda>_. Raises ''ConnectError'') \<rparr>"

definition imageless_world :: world where
  "imageless_world =
     calm_world\<lparr> history_reply :=
       (\<lambda>_. \<lparr> latency = 20,
               reply = Returns \<lparr> status_code = 200, body_text = ''ok'',
                                 body = Returns [''job-1'' \<mapsto> \<lparr> outputs = Some [(''9'', \<lparr> images = None \<rparr>)] \<rparr>] \<rparr>,
               oversleep = 0 \<rparr>) \<rparr>"


definition unreachable_world :: world where
  "unreachable_world =
     calm_world\<lparr> history_reply :=
       (\<lambda>_. \<lparr> latency = 20, reply = Raises ''ConnectError'', oversleep = 0 \<rparr>) \<rparr>"

definition stalled_world :: world where
  "stalled_world =
     calm_world\<lparr> history_reply :=
       (\<lambda>_. \<lparr> latency = 0,
               reply = Returns \<lparr> status_code = 200, body_text = ''{}'', body = Returns Map.empty \<rparr>,
               oversleep = 0 \<rparr>) \<rparr>"

definition twin_world_a :: world where
  "twin_world_a = calm_world\<lparr> uuid4_file := 4 * 16 ^ 19 + 8 * 16 ^ 15 + 1 \<rparr>"

definition twin_world_b :: world where
  "twin_world_b = calm_world\<lparr> uuid4_file := 4 * 16 ^ 19 + 8 * 16 ^ 15 + 2 \<rparr>"

section \<open>Reading a run's effects\<close>

fun is_callback :: "event \<Rightarrow> bool" where
  "is_callback (CallbackPost url payload secs) = True"
| "is_callback _ = False"

definition callback_posts :: "event list \<Rightarrow> event list" where
  "callback_posts t = filter is_callback t"

fun audit_of :: "event \<Rightarrow> json option" where
  "audit_of (AuditLog entry) = Some entry"
| "audit_of _ = None"

definition audit_entries :: "event list \<Rightarrow> json list" where
  "audit_entries t = List.map_filter audit_of t"

fun submit_of :: "event \<Rightarrow> json option" where
  "submit_of (EngineSubmit workflow secs) = Some workflow"
| "submit_of _ = None"

definition submitted :: "event list \<Rightarrow> json list" where
  "submitted t = List.map_filter submit_of t"

text \<open>The elapsed times at which the poll loop read its clock, in order.\<close>

fun clock_of :: "event \<Rightarrow> nat option" where
  "clock_of (ClockRead ms) = Some ms"
| "clock_of _ = None"

definition clock_reads :: "event list \<Rightarrow> nat list" where
  "clock_reads t = List.map_filter clock_of t"

fun is_history_query :: "event \<Rightarrow> bool" where
  "is_history_query (EngineHistory prompt_id) = True"
| "is_history_query _ = False"

definition history_queries :: "event list \<Rightarrow> nat" where
  "history_queries t = length (filter is_history_query t)"

text \<open>
  What one reply to a status query amounts to for the handle \<open>pid\<close>: the record it
  reports, whether it leaves the job pending (a response that does not report the handle),
  and the exception it ends in, if any.
\<close>

definition reported :: "history outcome response outcome \<Rightarrow> string \<Rightarrow> engine_record option" where
  "reported rp pid =
     (case rp of
        Raises m \<Rightarrow> None
      | Returns r \<Rightarrow>
          if status_code r = 200
          then (case body r of Raises m \<Rightarrow> None | Returns history \<Rightarrow> history pid)
          else None)"

definition pending :: "history outcome response outcome \<Rightarrow> string \<Rightarrow> bool" where
  "pending rp pid =
     (case rp of
        Raises m \<Rightarrow> False
      | Returns r \<Rightarrow>
          if status_code r = 200
          then (case body r of Raises m \<Rightarrow> False | Returns history \<Rightarrow> history pid = None)
          else True)"

definition failure_of :: "history outcome response outcome \<Rightarrow> string option" where
  "failure_of rp =
     (case rp of
        Raises m \<Rightarrow> Some m
      | Returns r \<Rightarrow>
          if status_code r = 200
          then (case body r of Raises m \<Rightarrow> Some m | Returns history \<Rightarrow> None)
          else None)"

text \<open>
  A trace of rounds, each a clock reading, a status query for \<open>pid\<close> and a sleep of one
  second, closed by a last clock reading with or without a last query.
\<close>

fun paced :: "string \<Rightarrow> event list \<Rightarrow> bool" where
  "paced pid [ClockRead e] = True"
| "paced pid [ClockRead e, EngineHistory p] = (p = pid)"
| "paced pid (ClockRead e # EngineHistory p # Sleep n # rest) = (p = pid \<and> n = 1 \<and> paced pid rest)"
| "paced pid _ = False"

section \<open>The prompt firewall: first match in declaration order\<close>

lemma lower_char_idem: "lower_char (lower_char c) = lower_char c"
  by (cases c) (auto simp: lower_char_def Let_def)


lemma lower_idem: "lower (lower s) = lower s"
  by (simp add: lower_def lower_char_idem)









section \<open>The negative prompt always carries the mandatory block\<close>

lemma dropWhile_solid: "ys \<noteq> [] \<Longrightarrow> \<not> P (hd ys) \<Longrightarrow> dropWhile P (xs @ ys) = dropWhile P xs @ ys"
  by (induction xs) (auto simp: neq_Nil_conv)

lemma strip_append_solid:
  assumes "ys \<noteq> []" "\<not> is_space (hd ys)" "\<not> is_space (last ys)"
  shows "strip (xs @ ys) = dropWhile is_space xs @ ys"
proof -
  have a: "dropWhile is_space (xs @ ys) = dropWhile is_space xs @ ys"
    using assms by (simp add: dropWhile_solid)
  have "dropWhile is_space (rev ys @ rev (dropWhile is_space xs)) = rev ys @ rev (dropWhile is_space xs)"
    using assms by (cases "rev ys") (auto simp: hd_rev dest: arg_cong [where f = hd])
  then show ?thesis by (simp add: strip_def a)
qed

lemma strip_global: "strip GLOBAL_NEGATIVE_PROMPT = mandatory_block"
  by (simp add: strip_def GLOBAL_NEGATIVE_PROMPT_def mandatory_block_def is_space_def)

lemma mandatory_block_solid:
  "mandatory_block \<noteq> []" "\<not> is_space (hd mandatory_block)" "\<not> is_space (last mandatory_block)"
  by (simp_all add: mandatory_block_def is_space_def)

lemma strip_mandatory_block: "strip mandatory_block = mandatory_block"
  using strip_append_solid [OF mandatory_block_solid, of "[]"] by simp

lemma strip_with_user_terms:
  "strip (neg @ '', '' @ mandatory_block) = dropWhile is_space neg @ '', '' @ mandatory_block"
proof -
  have "\<not> is_space (hd ('', '' @ mandatory_block))"
    by (simp add: is_space_def)
  moreover have "\<not> is_space (last ('', '' @ mandatory_block))"
    using mandatory_block_solid by simp
  ultimately show ?thesis
    using strip_append_solid [of "'', '' @ mandatory_block" neg] by simp
qed

lemma build_safe_prompt_with_terms:
  "neg \<noteq> [] \<Longrightarrow>
   snd (build_safe_prompt p neg) = dropWhile is_space neg @ '', '' @ mandatory_block"
proof -
  assume "neg \<noteq> []"
  then have "snd (build_safe_prompt p neg) = strip (neg @ '', '' @ mandatory_block)"
    by (simp add: build_safe_prompt_def strip_global)
  then show ?thesis by (simp only: strip_with_user_terms)
qed

text \<open>
  Claim C4. For every user-supplied negative prompt, the empty one included, the composed
  negative prompt ends with the mandatory block, word for word (the constant without its
  enclosing line breaks). When the user's text is not empty the result is the user's text,
  then a comma and a space, then the block, trimmed: only leading white space of the
  user's text can go. When it is empty the result is the block itself.
\<close>

theorem build_safe_prompt_mandatory_block:
  "strip GLOBAL_NEGATIVE_PROMPT = mandatory_block
   \<and> (\<exists>pre. snd (build_safe_prompt p neg) = pre @ mandatory_block)
   \<and> (neg \<noteq> [] \<longrightarrow>
        snd (build_safe_prompt p neg) = strip (neg @ '', '' @ mandatory_block)
      \<and> snd (build_safe_prompt p neg) = dropWhile is_space neg @ '', '' @ mandatory_block)
   \<and> (neg = [] \<longrightarrow> snd (build_safe_prompt p neg) = mandatory_block)"
proof -
  have e: "neg = [] \<Longrightarrow> snd (build_safe_prompt p neg) = mandatory_block"
    by (simp add: build_safe_prompt_def strip_global strip_mandatory_block)
  have n: "neg \<noteq> [] \<Longrightarrow> snd (build_safe_prompt p neg) = strip (neg @ '', '' @ mandatory_block)"
    by (simp add: build_safe_prompt_def strip_global)
  have d: "snd (build_safe_prompt p neg) = dropWhile is_space neg @ '', '' @ mandatory_block"
    if "neg \<noteq> []"
    using n [OF that] by (simp only: strip_with_user_terms)
  have "\<exists>pre. snd (build_safe_prompt p neg) = pre @ mandatory_block"
  proof (cases "neg = []")
    case True
    with e have "snd (build_safe_prompt p neg) = [] @ mandatory_block" by simp
    then show ?thesis by blast
  next
    case False
    with d have "snd (build_safe_prompt p neg) = (dropWhile is_space neg @ '', '') @ mandatory_block"
      by simp
    then show ?thesis by blast
  qed
  with e n d strip_global show ?thesis by blast
qed

text \<open>The statement at a negative prompt with a leading blank, and at the empty one.\<close>

theorem build_safe_prompt_mandatory_block_witness:
  "snd (build_safe_prompt ''a lake'' '' ugly, blurry'') = ''ugly, blurry, '' @ mandatory_block
   \<and> snd (build_safe_prompt ''a lake'' []) = mandatory_block"
proof -
  have "'' ugly, blurry'' \<noteq> []" by simp
  with build_safe_prompt_mandatory_block [of "''a lake''" "'' ugly, blurry''"]
  have "snd (build_safe_prompt ''a lake'' '' ugly, blurry'') =
          dropWhile is_space '' ugly, blurry'' @ '', '' @ mandatory_block"
    by blast
  moreover have "snd (build_safe_prompt ''a lake'' []) = mandatory_block"
    using build_safe_prompt_mandatory_block [of "''a lake''" "[]"] by blast
  ultimately show ?thesis by (simp add: is_space_def)
qed



section \<open>The job graph: fixed shape, values in their places\<close>

lemma map_of_map_key:
  "map_of (map (\<lambda>(k', x). if k' = k then (k', f x) else (k', x)) kvs) q =
   map_option (\<lambda>x. if q = k then f x else x) (map_of kvs q)"
  by (induction kvs) auto

lemma jget_jset_other:
  "\<not> prefix path q \<Longrightarrow> \<not> prefix q path \<Longrightarrow> jget (jset path v j) q = jget j q"
proof (induction path v j arbitrary: q rule: jset.induct)
  case (1 v j)
  then show ?case by simp
next
  case (2 k ks v kvs)
  from "2.prems" obtain k' q' where q: "q = k' # q'" by (cases q) auto
  show ?case
  proof (cases "k' = k")
    case True
    with "2.prems" q have np: "\<not> prefix ks q'" "\<not> prefix q' ks" by auto
    show ?thesis
    proof (cases "map_of kvs k")
      case None
      then show ?thesis using q True by (simp add: map_of_map_key)
    next
      case (Some x)
      then have "(k, x) \<in> set kvs" by (rule map_of_SomeD)
      from "2.IH" [OF this refl refl np] Some show ?thesis
        using q True by (simp add: map_of_map_key)
    qed
  next
    case False
    then show ?thesis using q by (simp add: map_of_map_key split: option.split)
  qed
qed simp_all


lemma ids: "node_ids (build_comfyui_workflow p n s st c w h m) = [''3'', ''4'', ''5'', ''6'', ''7'', ''8'', ''9'']"
  by (simp add: build_comfyui_workflow_def node_ids_def)

lemma wiring_same:
  "wiring (build_comfyui_workflow p n s st c w h m) = wiring (build_comfyui_workflow p' n' s' st' c' w' h' m')"
  by (simp add: build_comfyui_workflow_def wiring_def links_of_def)

lemma seed_only:
  "build_comfyui_workflow p n s2 st c w h m =
   jset [''3'', ''inputs'', ''seed''] (JInt s2) (build_comfyui_workflow p n s1 st c w h m)"
  by (simp add: build_comfyui_workflow_def)

lemma prompt_only:
  "build_comfyui_workflow p2 n s st c w h m =
   jset [''6'', ''inputs'', ''text''] (JStr p2) (build_comfyui_workflow p1 n s st c w h m)"
  by (simp add: build_comfyui_workflow_def)

text \<open>
  Claim C8. The builder is a function of its arguments alone. Whatever the arguments, the
  graph has the same seven node ids in the same order and the same wiring (the class of
  every node and every input that refers to another node). Changing only the seed
  overwrites the value under \<open>3/inputs/seed\<close> and nothing else; changing only the prompt
  overwrites the value under \<open>6/inputs/text\<close> and nothing else: every other path of the
  two graphs reads the same.
\<close>

theorem build_comfyui_workflow_shape:
  "node_ids (build_comfyui_workflow p n s st c w h m) = [''3'', ''4'', ''5'', ''6'', ''7'', ''8'', ''9'']
   \<and> wiring (build_comfyui_workflow p n s st c w h m) =
       wiring (build_comfyui_workflow p' n' s' st' c' w' h' m')
   \<and> build_comfyui_workflow p n s' st c w h m =
       jset [''3'', ''inputs'', ''seed''] (JInt s') (build_comfyui_workflow p n s st c w h m)
   \<and> build_comfyui_workflow p' n s st c w h m =
       jset [''6'', ''inputs'', ''text''] (JStr p') (build_comfyui_workflow p n s st c w h m)
   \<and> (\<forall>q. \<not> prefix [''3'', ''inputs'', ''seed''] q \<and> \<not> prefix q [''3'', ''inputs'', ''seed'']
          \<longrightarrow> jget (build_comfyui_workflow p n s' st c w h m) q =
              jget (build_comfyui_workflow p n s st c w h m) q)
   \<and> (\<forall>q. \<not> prefix [''6'', ''inputs'', ''text''] q \<and> \<not> prefix q [''6'', ''inputs'', ''text'']
          \<longrightarrow> jget (build_comfyui_workflow p' n s st c w h m) q =
              jget (build_comfyui_workflow p n s st c w h m) q)"
proof -
  have a: "jget (build_comfyui_workflow p n s' st c w h m) q = jget (build_comfyui_workflow p n s st c w h m) q"
    if "\<not> prefix [''3'', ''inputs'', ''seed''] q" "\<not> prefix q [''3'', ''inputs'', ''seed'']" for q
    using jget_jset_other [OF that] seed_only [of p n s' st c w h m s] by simp
  have b: "jget (build_comfyui_workflow p' n s st c w h m) q = jget (build_comfyui_workflow p n s st c w h m) q"
    if "\<not> prefix [''6'', ''inputs'', ''text''] q" "\<not> prefix q [''6'', ''inputs'', ''text'']" for q
    using jget_jset_other [OF that] prompt_only [of p' n s st c w h m p] by simp
  note c1 = ids [of p n s st c w h m]
  note c2 = wiring_same [of p n s st c w h m p' n' s' st' c' w' h' m']
  note c3 = seed_only [of p n s' st c w h m s]
  note c4 = prompt_only [of p' n s st c w h m p]
  from c1 c2 c3 c4 a b show ?thesis by blast
qed

text \<open>Two graphs that differ in the seed only agree on the sampler's step count.\<close>

theorem build_comfyui_workflow_shape_witness:
  "jget (build_comfyui_workflow ''a lake'' ''blurry'' 7 20 6 512 512 ''m'') [''3'', ''inputs'', ''steps''] =
   jget (build_comfyui_workflow ''a lake'' ''blurry'' 42 20 6 512 512 ''m'') [''3'', ''inputs'', ''steps'']
   \<and> jget (build_comfyui_workflow ''a lake'' ''blurry'' 42 20 6 512 512 ''m'') [''3'', ''inputs'', ''steps''] = Some (JInt 20)
   \<and> jget (build_comfyui_workflow ''a lake'' ''blurry'' 7 20 6 512 512 ''m'') [''3'', ''inputs'', ''seed''] = Some (JInt 7)
   \<and> jget (build_comfyui_workflow ''a lake'' ''blurry'' 42 20 6 512 512 ''m'') [''3'', ''inputs'', ''seed''] = Some (JInt 42)"
proof -
  have np: "\<not> prefix [''3'', ''inputs'', ''seed''] [''3'', ''inputs'', ''steps'']"
           "\<not> prefix [''3'', ''inputs'', ''steps''] [''3'', ''inputs'', ''seed'']"
    by simp_all
  from build_comfyui_workflow_shape [of "''a lake''" "''blurry''" 42 20 6 512 512 "''m''" _ _ 7] np
  have "jget (build_comfyui_workflow ''a lake'' ''blurry'' 7 20 6 512 512 ''m'') [''3'', ''inputs'', ''steps''] =
        jget (build_comfyui_workflow ''a lake'' ''blurry'' 42 20 6 512 512 ''m'') [''3'', ''inputs'', ''steps'']"
    by blast
  then show ?thesis by (simp add: build_comfyui_workflow_def)
qed

section \<open>Effects of the stages\<close>

lemma audit_entries_append [simp]: "audit_entries (a @ b) = audit_entries a @ audit_entries b"
  by (simp add: audit_entries_def List.map_filter_def)

lemma submitted_append [simp]: "submitted (a @ b) = submitted a @ submitted b"
  by (simp add: submitted_def List.map_filter_def)

lemma callback_posts_append [simp]: "callback_posts (a @ b) = callback_posts a @ callback_posts b"
  by (simp add: callback_posts_def)

lemma audit_entries_simps [simp]:
  "audit_entries [] = []"
  "audit_entries (AuditLog a # t) = a # audit_entries t"
  "audit_entries (EngineSubmit g n # t) = audit_entries t"
  "audit_entries (ClockRead ms # t) = audit_entries t"
  "audit_entries (EngineHistory p # t) = audit_entries t"
  "audit_entries (Sleep n # t) = audit_entries t"
  "audit_entries (EngineView f d # t) = audit_entries t"
  "audit_entries (FileWrite f b # t) = audit_entries t"
  "audit_entries (LogInfo s # t) = audit_entries t"
  "audit_entries (LogError s # t) = audit_entries t"
  "audit_entries (CallbackPost u j n # t) = audit_entries t"
  by (simp_all add: audit_entries_def map_filter_simps)

lemma submitted_simps [simp]:
  "submitted [] = []"
  "submitted (AuditLog a # t) = submitted t"
  "submitted (EngineSubmit g n # t) = g # submitted t"
  "submitted (ClockRead ms # t) = submitted t"
  "submitted (EngineHistory p # t) = submitted t"
  "submitted (Sleep n # t) = submitted t"
  "submitted (EngineView f d # t) = submitted t"
  "submitted (FileWrite f b # t) = submitted t"
  "submitted (LogInfo s # t) = submitted t"
  "submitted (LogError s # t) = submitted t"
  "submitted (CallbackPost u j n # t) = submitted t"
  by (simp_all add: submitted_def map_filter_simps)

lemma callback_posts_simps [simp]:
  "callback_posts [] = []"
  "callback_posts (AuditLog a # t) = callback_posts t"
  "callback_posts (EngineSubmit g n # t) = callback_posts t"
  "callback_posts (ClockRead ms # t) = callback_posts t"
  "callback_posts (EngineHistory p # t) = callback_posts t"
  "callback_posts (Sleep n # t) = callback_posts t"
  "callback_posts (EngineView f d # t) = callback_posts t"
  "callback_posts (FileWrite f b # t) = callback_posts t"
  "callback_posts (LogInfo s # t) = callback_posts t"
  "callback_posts (LogError s # t) = callback_posts t"
  "callback_posts (CallbackPost u j n # t) = CallbackPost u j n # callback_posts t"
  by (simp_all add: callback_posts_def)

lemma clock_reads_simps [simp]:
  "clock_reads [] = []"
  "clock_reads (ClockRead ms # t) = ms # clock_reads t"
  "clock_reads (EngineHistory p # t) = clock_reads t"
  "clock_reads (Sleep n # t) = clock_reads t"
  by (simp_all add: clock_reads_def List.map_filter_def)

lemma history_queries_simps [simp]:
  "history_queries [] = 0"
  "history_queries (ClockRead ms # t) = history_queries t"
  "history_queries (EngineHistory p # t) = Suc (history_queries t)"
  "history_queries (Sleep n # t) = history_queries t"
  by (simp_all add: history_queries_def)

text \<open>Effects of the tracker's stages.\<close>

lemma queue_prompt_events: "snd (queue_prompt W g) = [EngineSubmit g 30]"
  by (simp add: queue_prompt_def split: outcome.split)

lemma wait_loop_quiet:
  "audit_entries (snd (wait_loop W pid timeout i e)) = []
   \<and> submitted (snd (wait_loop W pid timeout i e)) = []
   \<and> callback_posts (snd (wait_loop W pid timeout i e)) = []"
proof (induction W pid timeout i e rule: wait_loop.induct)
  case (1 W pid timeout i e)
  show ?case
  proof (cases "int e > timeout * 1000")
    case True
    then show ?thesis by (simp add: wait_loop.simps [of W pid timeout i e])
  next
    case False
    with 1 show ?thesis
      by (auto simp add: wait_loop.simps [of W pid timeout i e] Let_def
               split: outcome.split option.split prod.split)
  qed
qed

lemma scan_images_quiet:
  "audit_entries (snd (scan_images W infos)) = []
   \<and> submitted (snd (scan_images W infos)) = []
   \<and> callback_posts (snd (scan_images W infos)) = []"
  by (induction infos) (auto simp add: Let_def split: option.split outcome.split prod.split)

lemma scan_outputs_quiet:
  "audit_entries (snd (scan_outputs W outs)) = []
   \<and> submitted (snd (scan_outputs W outs)) = []
   \<and> callback_posts (snd (scan_outputs W outs)) = []"
proof (induction outs)
  case Nil
  then show ?case by simp
next
  case (Cons a outs)
  obtain nid out where a: "a = (nid, out)" by (cases a)
  obtain r t where s: "scan_images W (case images out of Some infos \<Rightarrow> infos | None \<Rightarrow> []) = (r, t)"
    by (cases "scan_images W (case images out of Some infos \<Rightarrow> infos | None \<Rightarrow> [])")
  with scan_images_quiet [of W "case images out of Some infos \<Rightarrow> infos | None \<Rightarrow> []"]
  have q: "audit_entries t = []" "submitted t = []" "callback_posts t = []" by simp_all
  from Cons a s q show ?case
    by (auto split: option.split sum.split prod.split)
qed

section \<open>The stored file name\<close>

lemma take8_uuid_hex:
  "take 8 (uuid_hex n) = map (\<lambda>k. hex_digit ((n div 16 ^ 24 div 16 ^ (7 - k)) mod 16)) [0..<8]"
proof -
  have t: "take 8 [0..<32::nat] = [0..<8]"
    by (simp add: take_upt del: upt_rec_numeral)
  have "take 8 (uuid_hex n) = map (\<lambda>k. hex_digit ((n div 16 ^ (31 - k)) mod 16)) [0..<8]"
    unfolding uuid_hex_def take_map t ..
  also have "\<dots> = map (\<lambda>k. hex_digit ((n div 16 ^ 24 div 16 ^ (7 - k)) mod 16)) [0..<8]"
  proof (rule map_cong [OF refl])
    fix k :: nat assume "k \<in> set [0..<8]"
    then have "k < 8" by (simp del: upt_rec_numeral)
    then have "31 - k = 24 + (7 - k)" by arith
    then have "(16::nat) ^ (31 - k) = 16 ^ 24 * 16 ^ (7 - k)" by (simp only: power_add)
    then show "hex_digit ((n div 16 ^ (31 - k)) mod 16) = hex_digit ((n div 16 ^ 24 div 16 ^ (7 - k)) mod 16)"
      by (simp only: div_mult2_eq)
  qed
  finally show ?thesis .
qed

lemma take8_uuid_hex_small:
  assumes "n < 16 ^ 24"
  shows "take 8 (uuid_hex n) = replicate 8 (hex_digit 0)"
proof -
  from assms have "n div 16 ^ 24 = 0" by (rule div_less)
  then show ?thesis
    by (simp add: take8_uuid_hex map_replicate_const del: upt_rec_numeral)
qed

lemma hex_digit_values: "hex_digit 0 = CHR ''0''" "hex_digit 11 = CHR ''b''" "hex_digit 12 = CHR ''c''"
  by code_simp+

lemma upt8: "[0..<8] = [0, 1, 2, 3, 4, 5, 6, 7::nat]"
  by code_simp

lemma zeros8: "replicate 8 (CHR ''0'') = ''00000000''"
  by code_simp

lemma take8_high_digit:
  "take 8 (uuid_hex (11 * 16 ^ 31)) = ''b0000000''"
  "take 8 (uuid_hex (12 * 16 ^ 31)) = ''c0000000''"
  by (simp_all add: take8_uuid_hex upt8 hex_digit_values)

section \<open>The body shared by the two runs\<close>

lemma get_generated_image_quiet:
  "audit_entries (snd (get_generated_image W h)) = []
   \<and> submitted (snd (get_generated_image W h)) = []
   \<and> callback_posts (snd (get_generated_image W h)) = []"
  by (simp add: get_generated_image_def scan_outputs_quiet)

lemma wait_for_completion_quiet:
  "audit_entries (snd (wait_for_completion W pid timeout)) = []
   \<and> submitted (snd (wait_for_completion W pid timeout)) = []
   \<and> callback_posts (snd (wait_for_completion W pid timeout)) = []"
  by (simp add: wait_for_completion_def wait_loop_quiet)

text \<open>What a successful save returns and leaves behind.\<close>

lemma save_and_hash_image_Inr:
  assumes "save_and_hash_image W data md = (Inr (f, h), t)"
  shows "h = take 16 (sha256_hexdigest W data)
       \<and> f = h @ ''_'' @ take 8 (uuid_hex (uuid4_file W)) @ ''.png''
       \<and> (\<exists>p. (md ''prompt'' = Some (JStr p) \<or> md ''prompt'' = None \<and> p = [])
              \<and> t = [FileWrite f data,
                      AuditLog (JDict
                        [(''image_hash'', JStr h),
                         (''filename'', JStr f),
                         (''timestamp'', JStr (utcnow_isoformat W)),
                         (''persona_id'', dict_get md ''persona_id''),
                         (''user_id'', dict_get md ''user_id''),
                         (''seed'', dict_get md ''seed''),
                         (''prompt_hash'', JStr (take 16 (sha256_hexdigest W p)))])])"
  using assms
  by (auto simp add: save_and_hash_image_def Let_def
           split: outcome.splits option.splits json.splits)

lemma save_and_hash_image_callbacks:
  "callback_posts (snd (save_and_hash_image W data md)) = []
   \<and> submitted (snd (save_and_hash_image W data md)) = []"
  by (auto simp add: save_and_hash_image_def Let_def
           split: outcome.splits option.splits json.splits)

text \<open>A successful run of the shared body, stage by stage.\<close>

lemma generation_body_Inr:
  assumes "generation_body W cfg req = (Inr (f, h, s), t)"
  shows "\<exists>pid t2 entry t3 name data t4.
           queue_prompt W (request_workflow W cfg req) = (Inr pid, [EngineSubmit (request_workflow W cfg req) 30])
         \<and> wait_for_completion W pid 300 = (Inr entry, t2)
         \<and> get_generated_image W entry = (Inr (name, data), t3)
         \<and> save_and_hash_image W data
              [''prompt'' \<mapsto> JStr (prompt req),
               ''seed'' \<mapsto> JInt (resolve_seed W (seed req)),
               ''persona_id'' \<mapsto> opt_json (persona_id req),
               ''user_id'' \<mapsto> opt_json (user_id req)] = (Inr (f, h), t4)
         \<and> s = resolve_seed W (seed req)
         \<and> t = [EngineSubmit (request_workflow W cfg req) 30] @ t2 @ t3 @ t4"
proof -
  let ?g = "request_workflow W cfg req"
  let ?md = "[''prompt'' \<mapsto> JStr (prompt req),
              ''seed'' \<mapsto> JInt (resolve_seed W (seed req)),
              ''persona_id'' \<mapsto> opt_json (persona_id req),
              ''user_id'' \<mapsto> opt_json (user_id req)]"
  obtain r1 t1 where q: "queue_prompt W ?g = (r1, t1)" by (cases "queue_prompt W ?g")
  with queue_prompt_events [of W ?g] have t1: "t1 = [EngineSubmit ?g 30]" by simp
  from assms q obtain pid where r1: "r1 = Inr pid"
    by (cases r1) (auto simp add: generation_body_def bind_run_def Let_def)
  obtain r2 t2 where w: "wait_for_completion W pid 300 = (r2, t2)"
    by (cases "wait_for_completion W pid 300")
  from assms q r1 w obtain entry where r2: "r2 = Inr entry"
    by (cases r2) (auto simp add: generation_body_def bind_run_def Let_def)
  obtain r3 t3 where g: "get_generated_image W entry = (r3, t3)"
    by (cases "get_generated_image W entry")
  from assms q r1 w r2 g obtain name data where r3: "r3 = Inr (name, data)"
    by (cases r3) (auto simp add: generation_body_def bind_run_def Let_def)
  obtain r4 t4 where s: "save_and_hash_image W data ?md = (r4, t4)"
    by (cases "save_and_hash_image W data ?md")
  from assms q r1 w r2 g r3 s have r4: "r4 = Inr (f, h)" and rest: "s = resolve_seed W (seed req)" "t = t1 @ t2 @ t3 @ t4"
    by (cases r4; auto simp add: generation_body_def bind_run_def Let_def)+
  from q t1 r1 w r2 g r3 s r4 rest show ?thesis by auto
qed

lemma generation_body_audit:
  assumes "generation_body W cfg req = (Inr (f, h, s), t)"
  shows "audit_entries t =
           [JDict
             [(''image_hash'', JStr h),
              (''filename'', JStr f),
              (''timestamp'', JStr (utcnow_isoformat W)),
              (''persona_id'', opt_json (persona_id req)),
              (''user_id'', opt_json (user_id req)),
              (''seed'', JInt s),
              (''prompt_hash'', JStr (take 16 (sha256_hexdigest W (prompt req))))]]"
proof -
  from generation_body_Inr [OF assms] obtain pid t2 entry t3 name data t4 where
    w: "wait_for_completion W pid 300 = (Inr entry, t2)" and
    g: "get_generated_image W entry = (Inr (name, data), t3)" and
    sv: "save_and_hash_image W data
              [''prompt'' \<mapsto> JStr (prompt req),
               ''seed'' \<mapsto> JInt (resolve_seed W (seed req)),
               ''persona_id'' \<mapsto> opt_json (persona_id req),
               ''user_id'' \<mapsto> opt_json (user_id req)] = (Inr (f, h), t4)" and
    s: "s = resolve_seed W (seed req)" and
    t: "t = [EngineSubmit (request_workflow W cfg req) 30] @ t2 @ t3 @ t4"
    by blast
  from wait_for_completion_quiet [of W pid 300] w have a2: "audit_entries t2 = []" by simp
  from get_generated_image_quiet [of W entry] g have a3: "audit_entries t3 = []" by simp
  from save_and_hash_image_Inr [OF sv] have
    "audit_entries t4 =
           [JDict
             [(''image_hash'', JStr h),
              (''filename'', JStr f),
              (''timestamp'', JStr (utcnow_isoformat W)),
              (''persona_id'', opt_json (persona_id req)),
              (''user_id'', opt_json (user_id req)),
              (''seed'', JInt s),
              (''prompt_hash'', JStr (take 16 (sha256_hexdigest W (prompt req))))]]"
    using s by (auto simp add: dict_get_def)
  with a2 a3 t show ?thesis by simp
qed

lemma generation_body_submitted:
  "submitted (snd (generation_body W cfg req)) = [request_workflow W cfg req]"
proof -
  let ?g = "request_workflow W cfg req"
  obtain r1 where q: "queue_prompt W ?g = (r1, [EngineSubmit ?g 30])"
    using queue_prompt_events [of W ?g] by (cases "queue_prompt W ?g") auto
  show ?thesis
  proof (cases r1)
    case (Inl e)
    with q show ?thesis by (simp add: generation_body_def bind_run_def Let_def)
  next
    case (Inr pid)
    obtain r2 t2 where w: "wait_for_completion W pid 300 = (r2, t2)"
      by (cases "wait_for_completion W pid 300")
    with wait_for_completion_quiet [of W pid 300] have s2: "submitted t2 = []" by simp
    show ?thesis
    proof (cases r2)
      case (Inl e)
      with q Inr w s2 show ?thesis by (simp add: generation_body_def bind_run_def Let_def)
    next
      case (Inr entry)
      obtain r3 t3 where g: "get_generated_image W entry = (r3, t3)"
        by (cases "get_generated_image W entry")
      with get_generated_image_quiet [of W entry] have s3: "submitted t3 = []" by simp
      show ?thesis
      proof (cases r3)
        case (Inl e)
        with q \<open>r1 = Inr pid\<close> w s2 Inr g s3 show ?thesis
          by (simp add: generation_body_def bind_run_def Let_def)
      next
        case (Inr found)
        obtain name data where f: "found = (name, data)" by (cases found)
        let ?md = "[''prompt'' \<mapsto> JStr (prompt req),
              ''seed'' \<mapsto> JInt (resolve_seed W (seed req)),
              ''persona_id'' \<mapsto> opt_json (persona_id req),
              ''user_id'' \<mapsto> opt_json (user_id req)]"
        obtain r4 t4 where sv: "save_and_hash_image W data ?md = (r4, t4)"
          by (cases "save_and_hash_image W data ?md")
        with save_and_hash_image_callbacks [of W data ?md] have s4: "submitted t4 = []" by simp
        from q \<open>r1 = Inr pid\<close> w s2 \<open>r2 = Inr entry\<close> g s3 Inr f sv s4 show ?thesis
          by (cases r4) (auto simp add: generation_body_def bind_run_def Let_def)
      qed
    qed
  qed
qed

section \<open>Runs against the calm collaborators\<close>

lemma wait_for_completion_calm:
  assumes "history_reply W = history_reply calm_world"
  shows "wait_for_completion W ''job-1'' timeout =
           (if 0 \<le> timeout then (Inr sample_record, [ClockRead 0, EngineHistory ''job-1''])
            else (Inl (HTTPException 504 (''Generation timeout after '' @ str_int timeout @ ''s'')),
                  [ClockRead 0]))"
  using assms
  by (simp add: wait_for_completion_def wait_loop.simps [of W _ _ 0 0] calm_world_def)

lemma get_generated_image_calm:
  assumes "view_reply W = view_reply calm_world"
  shows "get_generated_image W sample_record =
           (Inr (''xinmate_00001_.png'', ''PNG''), [EngineView ''xinmate_00001_.png'' []])"
  using assms by (simp add: get_generated_image_def sample_record_def calm_world_def)

lemma save_and_hash_image_calm:
  assumes "file_write W = file_write calm_world" and "md ''prompt'' = Some (JStr p)"
  shows "save_and_hash_image W data md =
           (Inr (take 16 (sha256_hexdigest W data) @ ''_'' @ take 8 (uuid_hex (uuid4_file W)) @ ''.png'',
                 take 16 (sha256_hexdigest W data)),
            [FileWrite (take 16 (sha256_hexdigest W data) @ ''_'' @ take 8 (uuid_hex (uuid4_file W)) @ ''.png'') data,
             AuditLog (JDict
               [(''image_hash'', JStr (take 16 (sha256_hexdigest W data))),
                (''filename'', JStr (take 16 (sha256_hexdigest W data) @ ''_'' @ take 8 (uuid_hex (uuid4_file W)) @ ''.png'')),
                (''timestamp'', JStr (utcnow_isoformat W)),
                (''persona_id'', dict_get md ''persona_id''),
                (''user_id'', dict_get md ''user_id''),
                (''seed'', dict_get md ''seed''),
                (''prompt_hash'', JStr (take 16 (sha256_hexdigest W p)))])])"
  using assms by (simp add: save_and_hash_image_def Let_def calm_world_def)

lemma generation_body_calm:
  assumes "submit_reply W = submit_reply calm_world" "history_reply W = history_reply calm_world"
    "view_reply W = view_reply calm_world" "file_write W = file_write calm_world"
  shows "generation_body W cfg req =
           (Inr (take 16 (sha256_hexdigest W ''PNG'') @ ''_'' @ take 8 (uuid_hex (uuid4_file W)) @ ''.png'',
                 take 16 (sha256_hexdigest W ''PNG''),
                 resolve_seed W (seed req)),
            [EngineSubmit (request_workflow W cfg req) 30,
             ClockRead 0, EngineHistory ''job-1'',
             EngineView ''xinmate_00001_.png'' [],
             FileWrite (take 16 (sha256_hexdigest W ''PNG'') @ ''_'' @ take 8 (uuid_hex (uuid4_file W)) @ ''.png'') ''PNG'',
             AuditLog (JDict
               [(''image_hash'', JStr (take 16 (sha256_hexdigest W ''PNG''))),
                (''filename'', JStr (take 16 (sha256_hexdigest W ''PNG'') @ ''_'' @ take 8 (uuid_hex (uuid4_file W)) @ ''.png'')),
                (''timestamp'', JStr (utcnow_isoformat W)),
                (''persona_id'', opt_json (persona_id req)),
                (''user_id'', opt_json (user_id req)),
                (''seed'', JInt (resolve_seed W (seed req))),
                (''prompt_hash'', JStr (take 16 (sha256_hexdigest W (prompt req))))])])"
proof -
  have q: "queue_prompt W g = (Inr ''job-1'', [EngineSubmit g 30])" for g
    using assms(1) by (simp add: queue_prompt_def calm_world_def)
  have w: "wait_for_completion W ''job-1'' 300 = (Inr sample_record, [ClockRead 0, EngineHistory ''job-1''])"
    using wait_for_completion_calm [OF assms(2), of 300] by simp
  note g = get_generated_image_calm [OF assms(3)]
  note s = save_and_hash_image_calm [OF assms(4)]
  show ?thesis
    by (simp add: generation_body_def bind_run_def Let_def q w g s dict_get_def)
qed

lemma safe_lake: "validate_prompt default_config ''a lake'' = (True, [])"
  by code_simp

section \<open>The synchronous endpoint\<close>

lemma generate_image_valid:
  assumes "verify_api_key cfg creds = Inr True" and "validate_prompt cfg (prompt req) = (True, err)"
  shows "generate_image W cfg creds req =
           (case generation_body W cfg req of
              (Inr (fname, ihash, seed_v), t) \<Rightarrow>
                (Inr \<lparr> success = True, image_url = Some (''/images/'' @ fname),
                       image_hash = Some ihash, seed_used = Some seed_v, error = None \<rparr>, t)
            | (Inl (HTTPException code detail), t) \<Rightarrow> (Inl (HTTPException code detail), t)
            | (Inl (Exception m), t) \<Rightarrow>
                (Inr \<lparr> success = False, image_url = None, image_hash = None,
                       seed_used = None, error = Some m \<rparr>,
                 t @ [LogError (''Generation failed: '' @ m)]))"
  using assms by (simp add: generate_image_def)

lemma verify_open: "verify_api_key default_config creds = Inr True"
  by (simp add: verify_api_key_def default_config_def)

section \<open>The background run, step by step\<close>

lemma generation_body_callbacks:
  "callback_posts (snd (generation_body W cfg req)) = []"
proof -
  let ?g = "request_workflow W cfg req"
  obtain r1 where q: "queue_prompt W ?g = (r1, [EngineSubmit ?g 30])"
    using queue_prompt_events [of W ?g] by (cases "queue_prompt W ?g") auto
  show ?thesis
  proof (cases r1)
    case (Inl e)
    with q show ?thesis by (simp add: generation_body_def bind_run_def Let_def)
  next
    case (Inr pid)
    obtain r2 t2 where w: "wait_for_completion W pid 300 = (r2, t2)"
      by (cases "wait_for_completion W pid 300")
    with wait_for_completion_quiet [of W pid 300] have s2: "callback_posts t2 = []" by simp
    show ?thesis
    proof (cases r2)
      case (Inl e)
      with q Inr w s2 show ?thesis by (simp add: generation_body_def bind_run_def Let_def)
    next
      case (Inr entry)
      obtain r3 t3 where g: "get_generated_image W entry = (r3, t3)"
        by (cases "get_generated_image W entry")
      with get_generated_image_quiet [of W entry] have s3: "callback_posts t3 = []" by simp
      show ?thesis
      proof (cases r3)
        case (Inl e)
        with q \<open>r1 = Inr pid\<close> w s2 Inr g s3 show ?thesis
          by (simp add: generation_body_def bind_run_def Let_def)
      next
        case (Inr found)
        obtain name data where f: "found = (name, data)" by (cases found)
        let ?md = "[''prompt'' \<mapsto> JStr (prompt req),
              ''seed'' \<mapsto> JInt (resolve_seed W (seed req)),
              ''persona_id'' \<mapsto> opt_json (persona_id req),
              ''user_id'' \<mapsto> opt_json (user_id req)]"
        obtain r4 t4 where sv: "save_and_hash_image W data ?md = (r4, t4)"
          by (cases "save_and_hash_image W data ?md")
        with save_and_hash_image_callbacks [of W data ?md] have s4: "callback_posts t4 = []" by simp
        from q \<open>r1 = Inr pid\<close> w s2 \<open>r2 = Inr entry\<close> g s3 Inr f sv s4 show ?thesis
          by (cases r4) (auto simp add: generation_body_def bind_run_def Let_def)
      qed
    qed
  qed
qed

lemma generate_image_success:
  assumes "generate_image W cfg creds req = (Inr resp, t)" and "success resp"
  shows "\<exists>f h. generation_body W cfg req = (Inr (f, h, resolve_seed W (seed req)), t)
             \<and> resp = \<lparr> success = True, image_url = Some (''/images/'' @ f), image_hash = Some h,
                        seed_used = Some (resolve_seed W (seed req)), error = None \<rparr>"
proof -
  obtain r t0 where gb: "generation_body W cfg req = (r, t0)" by (cases "generation_body W cfg req")
  from assms(1) have v: "verify_api_key cfg creds \<noteq> Inl e" for e
    by (auto simp add: generate_image_def)
  then obtain b where vb: "verify_api_key cfg creds = Inr b" by (cases "verify_api_key cfg creds") auto
  obtain ok err where vp: "validate_prompt cfg (prompt req) = (ok, err)"
    by (cases "validate_prompt cfg (prompt req)")
  from assms(1) vb vp have ok: ok by (auto simp add: generate_image_def split: if_splits)
  show ?thesis
  proof (cases r)
    case (Inl e)
    with assms gb vb vp ok show ?thesis
      by (cases e) (auto simp add: generate_image_def)
  next
    case (Inr x)
    obtain f h s where x: "x = (f, h, s)" by (cases x)
    from generation_body_Inr [of W cfg req f h s t0] gb Inr x have s: "s = resolve_seed W (seed req)"
      by auto
    from assms gb vb vp ok Inr x s show ?thesis by (auto simp add: generate_image_def)
  qed
qed

lemma process_async_generation_ok:
  assumes "generation_body W cfg req = (Inr (f, h, s), t)"
  shows "callback_posts (snd (process_async_generation W cfg req)) =
           CallbackPost (callback_url req)
             (JDict
               [(''request_id'', JStr (request_id req)),
                (''status'', JStr ''completed''),
                (''image_url'', JStr (''/images/'' @ f)),
                (''image_hash'', JStr h),
                (''seed_used'', JInt s),
                (''user_id'', opt_json (user_id req)),
                (''persona_id'', opt_json (persona_id req))]) 10
           # (case callback_reply W 0 of
                Returns _ \<Rightarrow> []
              | Raises m \<Rightarrow>
                  [CallbackPost (callback_url req)
                    (JDict
                      [(''request_id'', JStr (request_id req)),
                       (''status'', JStr ''failed''),
                       (''error'', JStr m),
                       (''user_id'', opt_json (user_id req))]) 10])"
    and "audit_entries (snd (process_async_generation W cfg req)) = audit_entries t"
    and "fst (process_async_generation W cfg req) = Inr ()"
  using assms generation_body_callbacks [of W cfg req]
  by (auto simp add: process_async_generation_def send_error_callback_def Let_def
           split: outcome.split)


lemma or_default_simps:
  "or_default None d = d"
  "or_default (Some v) d = (if v = 0 then d else v)"
  by (simp_all add: or_default_def)

lemma request_workflow_values:
  "jget (request_workflow W cfg req) [''3'', ''inputs'', ''seed''] = Some (JInt (resolve_seed W (seed req)))"
  "jget (request_workflow W cfg req) [''3'', ''inputs'', ''steps''] = Some (JInt (or_default (steps req) (DEFAULT_STEPS cfg)))"
  "jget (request_workflow W cfg req) [''3'', ''inputs'', ''cfg''] = Some (JFloat (or_default (cfg_scale req) (DEFAULT_CFG cfg)))"
  "jget (request_workflow W cfg req) [''5'', ''inputs'', ''width''] = Some (JInt (or_default (width req) (DEFAULT_WIDTH cfg)))"
  "jget (request_workflow W cfg req) [''5'', ''inputs'', ''height''] = Some (JInt (or_default (height req) (DEFAULT_HEIGHT cfg)))"
  "jget (request_workflow W cfg req) [''4'', ''inputs'', ''ckpt_name''] = Some (JStr (MODEL_NAME cfg))"
  "jget (request_workflow W cfg req) [''6'', ''inputs'', ''text''] = Some (JStr (strip (prompt req)))"
  "jget (request_workflow W cfg req) [''7'', ''inputs'', ''text''] =
     Some (JStr (snd (build_safe_prompt (prompt req) (case negative_prompt req of None \<Rightarrow> [] | Some n \<Rightarrow> n))))"
  by (simp_all add: request_workflow_def build_comfyui_workflow_def Let_def build_safe_prompt_def
                split: prod.split)

section \<open>Which pipeline errors are HTTP errors\<close>

lemma queue_prompt_http:
  assumes "queue_prompt W g = (Inl (HTTPException c d), t)"
  shows "c = 500 \<and> (\<exists>r. submit_reply W g = Returns r \<and> status_code r \<noteq> 200
                        \<and> d = ''ComfyUI error: '' @ body_text r)"
  using assms by (auto simp add: queue_prompt_def split: outcome.splits if_splits)

lemma wait_loop_http:
  "wait_loop W pid timeout i e = (Inl (HTTPException c d), t) \<Longrightarrow>
   c = 504 \<and> d = ''Generation timeout after '' @ str_int timeout @ ''s''"
proof (induction W pid timeout i e arbitrary: t rule: wait_loop.induct)
  case (1 W pid timeout i e)
  show ?case
  proof (cases "int e > timeout * 1000")
    case True
    with "1.prems" show ?thesis by (simp add: wait_loop.simps [of W pid timeout i e])
  next
    case False
    obtain r' t' where n: "wait_loop W pid timeout (Suc i)
        (e + latency (history_reply W i) + 1000 + oversleep (history_reply W i)) = (r', t')"
      by (cases "wait_loop W pid timeout (Suc i)
        (e + latency (history_reply W i) + 1000 + oversleep (history_reply W i))")
    from "1.prems" False n have "r' = Inl (HTTPException c d)"
      by (auto simp add: wait_loop.simps [of W pid timeout i e] Let_def
               split: outcome.splits option.splits if_splits)
    with "1.IH" [OF False refl] n show ?thesis by simp
  qed
qed

lemma scan_images_no_http: "fst (scan_images W infos) \<noteq> Inl (HTTPException c d)"
  by (induction infos) (auto simp add: Let_def split: option.split outcome.split prod.split)

lemma scan_outputs_http:
  "scan_outputs W outs = (Inl (HTTPException c d), t) \<Longrightarrow> c = 500 \<and> d = ''No image found in output''"
proof (induction outs arbitrary: t)
  case Nil
  then show ?case by simp
next
  case (Cons a outs)
  obtain nid out where a: "a = (nid, out)" by (cases a)
  show ?case
  proof (cases "images out")
    case None
    with Cons a show ?thesis by simp
  next
    case (Some infos)
    obtain r1 t1 where s: "scan_images W infos = (r1, t1)" by (cases "scan_images W infos")
    with scan_images_no_http [of W infos c d] have nh: "r1 \<noteq> Inl (HTTPException c d)" by simp
    obtain r2 t2 where o: "scan_outputs W outs = (r2, t2)" by (cases "scan_outputs W outs")
    from Cons.prems a Some s nh o have "r2 = Inl (HTTPException c d)"
      by (auto split: sum.splits option.splits)
    with Cons.IH o show ?thesis by simp
  qed
qed

lemma save_and_hash_image_no_http: "fst (save_and_hash_image W data md) \<noteq> Inl (HTTPException c d)"
  by (auto simp add: save_and_hash_image_def Let_def split: outcome.splits option.splits json.splits)

lemma generation_body_http:
  assumes "generation_body W cfg req = (Inl (HTTPException c d), t)"
  shows "c = 500 \<or> c = 504"
proof -
  let ?g = "request_workflow W cfg req"
  let ?md = "[''prompt'' \<mapsto> JStr (prompt req),
              ''seed'' \<mapsto> JInt (resolve_seed W (seed req)),
              ''persona_id'' \<mapsto> opt_json (persona_id req),
              ''user_id'' \<mapsto> opt_json (user_id req)]"
  obtain r1 t1 where q: "queue_prompt W ?g = (r1, t1)" by (cases "queue_prompt W ?g")
  show ?thesis
  proof (cases r1)
    case (Inl e)
    with assms q have "e = HTTPException c d"
      by (simp add: generation_body_def bind_run_def Let_def)
    with q Inl queue_prompt_http [of W ?g c d t1] show ?thesis by simp
  next
    case (Inr pid)
    obtain r2 t2 where w: "wait_for_completion W pid 300 = (r2, t2)"
      by (cases "wait_for_completion W pid 300")
    show ?thesis
    proof (cases r2)
      case (Inl e)
      with assms q \<open>r1 = Inr pid\<close> w have "e = HTTPException c d"
        by (simp add: generation_body_def bind_run_def Let_def)
      with w Inl wait_loop_http [of W pid 300 0 0 c d t2] show ?thesis
        by (simp add: wait_for_completion_def)
    next
      case (Inr entry)
      obtain r3 t3 where g: "get_generated_image W entry = (r3, t3)"
        by (cases "get_generated_image W entry")
      show ?thesis
      proof (cases r3)
        case (Inl e)
        with assms q \<open>r1 = Inr pid\<close> w \<open>r2 = Inr entry\<close> g have "e = HTTPException c d"
          by (simp add: generation_body_def bind_run_def Let_def)
        with g Inl scan_outputs_http [of W _ c d t3] show ?thesis
          by (simp add: get_generated_image_def)
      next
        case (Inr found)
        obtain name data where f: "found = (name, data)" by (cases found)
        obtain r4 t4 where sv: "save_and_hash_image W data ?md = (r4, t4)"
          by (cases "save_and_hash_image W data ?md")
        with save_and_hash_image_no_http [of W data ?md c d] have "r4 \<noteq> Inl (HTTPException c d)"
          by simp
        with assms q \<open>r1 = Inr pid\<close> w \<open>r2 = Inr entry\<close> g Inr f sv show ?thesis
          by (cases r4) (auto simp add: generation_body_def bind_run_def Let_def)
      qed
    qed
  qed
qed

lemma generation_body_refused:
  assumes "submit_reply W (request_workflow W cfg req) = Returns r" and "status_code r \<noteq> 200"
  shows "generation_body W cfg req =
           (Inl (HTTPException 500 (''ComfyUI error: '' @ body_text r)),
            [EngineSubmit (request_workflow W cfg req) 30])"
  using assms by (simp add: generation_body_def bind_run_def Let_def queue_prompt_def)

lemma generation_body_unreachable:
  assumes "submit_reply W (request_workflow W cfg req) = Raises m"
  shows "generation_body W cfg req =
           (Inl (Exception m), [EngineSubmit (request_workflow W cfg req) 30])"
  using assms by (simp add: generation_body_def bind_run_def Let_def queue_prompt_def)

lemma scan_outputs_no_images:
  "list_all (\<lambda>item. images (snd item) = None) outs \<Longrightarrow>
   scan_outputs W outs = (Inl (HTTPException 500 ''No image found in output''), [])"
  by (induction outs) auto

lemma generation_body_no_artifact:
  assumes "queue_prompt W (request_workflow W cfg req) = (Inr pid, t1)"
      and "wait_for_completion W pid 300 = (Inr entry, t2)"
      and "list_all (\<lambda>item. images (snd item) = None) (case outputs entry of None \<Rightarrow> [] | Some items \<Rightarrow> items)"
  shows "generation_body W cfg req = (Inl (HTTPException 500 ''No image found in output''), t1 @ t2)"
  using assms scan_outputs_no_images [OF assms(3), of W]
  by (simp add: generation_body_def bind_run_def Let_def get_generated_image_def)

section \<open>The poll loop, round by round\<close>

text \<open>One round of the loop, by what the reply amounts to.\<close>

lemma wait_loop_late:
  "timeout * 1000 < int e \<Longrightarrow>
   wait_loop W pid timeout i e =
     (Inl (HTTPException 504 (''Generation timeout after '' @ str_int timeout @ ''s'')), [ClockRead e])"
  by (simp add: wait_loop.simps [of W pid timeout i e])

lemma wait_loop_reported:
  "\<not> timeout * 1000 < int e \<Longrightarrow> reported (reply (history_reply W i)) pid = Some entry \<Longrightarrow>
   wait_loop W pid timeout i e = (Inr entry, [ClockRead e, EngineHistory pid])"
  by (auto simp add: wait_loop.simps [of W pid timeout i e] reported_def Let_def
           split: outcome.splits if_splits)

lemma wait_loop_failure:
  "\<not> timeout * 1000 < int e \<Longrightarrow> failure_of (reply (history_reply W i)) = Some m \<Longrightarrow>
   wait_loop W pid timeout i e = (Inl (Exception m), [ClockRead e, EngineHistory pid])"
  by (auto simp add: wait_loop.simps [of W pid timeout i e] failure_of_def Let_def
           split: outcome.splits if_splits)

lemma wait_loop_pending:
  "\<not> timeout * 1000 < int e \<Longrightarrow> pending (reply (history_reply W i)) pid \<Longrightarrow>
   wait_loop W pid timeout i e =
     (fst (wait_loop W pid timeout (Suc i)
             (e + latency (history_reply W i) + 1000 + oversleep (history_reply W i))),
      [ClockRead e, EngineHistory pid, Sleep 1] @
      snd (wait_loop W pid timeout (Suc i)
             (e + latency (history_reply W i) + 1000 + oversleep (history_reply W i))))"
  by (auto simp add: wait_loop.simps [of W pid timeout i e] pending_def Let_def
           split: outcome.splits if_splits prod.splits)

lemma reply_cases:
  "pending rp pid \<or> (\<exists>entry. reported rp pid = Some entry) \<or> (\<exists>m. failure_of rp = Some m)"
  by (auto simp add: pending_def reported_def failure_of_def split: outcome.splits)

lemma wait_loop_paced: "paced pid (snd (wait_loop W pid timeout i e))"
proof (induction W pid timeout i e rule: wait_loop.induct)
  case (1 W pid timeout i e)
  show ?case
  proof (cases "timeout * 1000 < int e")
    case True
    then show ?thesis by (simp add: wait_loop_late)
  next
    case False
    from reply_cases [of "reply (history_reply W i)" pid] show ?thesis
    proof (elim disjE exE)
      assume p: "pending (reply (history_reply W i)) pid"
      from "1.IH" [OF _ refl] False show ?thesis
        by (simp add: wait_loop_pending [OF False p])
    next
      fix entry assume "reported (reply (history_reply W i)) pid = Some entry"
      then show ?thesis by (simp add: wait_loop_reported [OF False])
    next
      fix m assume "failure_of (reply (history_reply W i)) = Some m"
      then show ?thesis by (simp add: wait_loop_failure [OF False])
    qed
  qed
qed

lemma wait_loop_timed_out:
  "wait_loop W pid timeout i e = (Inl (HTTPException c d), t) \<Longrightarrow>
   clock_reads t \<noteq> [] \<and> timeout * 1000 < int (last (clock_reads t))
   \<and> list_all (\<lambda>x. int x \<le> timeout * 1000) (butlast (clock_reads t))"
proof (induction W pid timeout i e arbitrary: t rule: wait_loop.induct)
  case (1 W pid timeout i e)
  show ?case
  proof (cases "timeout * 1000 < int e")
    case True
    with "1.prems" show ?thesis by (auto simp add: wait_loop_late)
  next
    case False
    let ?e' = "e + latency (history_reply W i) + 1000 + oversleep (history_reply W i)"
    from reply_cases [of "reply (history_reply W i)" pid] show ?thesis
    proof (elim disjE exE)
      assume p: "pending (reply (history_reply W i)) pid"
      obtain r' t' where n: "wait_loop W pid timeout (Suc i) ?e' = (r', t')"
        by (cases "wait_loop W pid timeout (Suc i) ?e'")
      with "1.prems" wait_loop_pending [OF False p] have r': "r' = Inl (HTTPException c d)"
        and t: "t = [ClockRead e, EngineHistory pid, Sleep 1] @ t'" by simp_all
      from "1.IH" [OF _ refl, of t'] False n r'
      have "clock_reads t' \<noteq> [] \<and> timeout * 1000 < int (last (clock_reads t'))
            \<and> list_all (\<lambda>x. int x \<le> timeout * 1000) (butlast (clock_reads t'))" by simp
      with t False show ?thesis by simp
    next
      fix entry assume "reported (reply (history_reply W i)) pid = Some entry"
      with "1.prems" show ?thesis by (simp add: wait_loop_reported [OF False])
    next
      fix m assume "failure_of (reply (history_reply W i)) = Some m"
      with "1.prems" show ?thesis by (simp add: wait_loop_failure [OF False])
    qed
  qed
qed

lemma wait_loop_returned:
  "wait_loop W pid timeout i e = (Inr entry, t) \<Longrightarrow>
   0 < history_queries t
   \<and> reported (reply (history_reply W (i + history_queries t - 1))) pid = Some entry
   \<and> (\<forall>j. i \<le> j \<and> j < i + history_queries t - 1 \<longrightarrow> pending (reply (history_reply W j)) pid)
   \<and> last t = EngineHistory pid"
proof (induction W pid timeout i e arbitrary: t rule: wait_loop.induct)
  case (1 W pid timeout i e)
  show ?case
  proof (cases "timeout * 1000 < int e")
    case True
    with "1.prems" show ?thesis by (simp add: wait_loop_late)
  next
    case False
    let ?e' = "e + latency (history_reply W i) + 1000 + oversleep (history_reply W i)"
    from reply_cases [of "reply (history_reply W i)" pid] show ?thesis
    proof (elim disjE exE)
      assume p: "pending (reply (history_reply W i)) pid"
      obtain r' t' where n: "wait_loop W pid timeout (Suc i) ?e' = (r', t')"
        by (cases "wait_loop W pid timeout (Suc i) ?e'")
      with "1.prems" wait_loop_pending [OF False p] have r': "r' = Inr entry"
        and t: "t = [ClockRead e, EngineHistory pid, Sleep 1] @ t'" by simp_all
      from "1.IH" [OF _ refl, of t'] False n r'
      have ih: "0 < history_queries t'"
        "reported (reply (history_reply W (Suc i + history_queries t' - 1))) pid = Some entry"
        "\<forall>j. Suc i \<le> j \<and> j < Suc i + history_queries t' - 1 \<longrightarrow> pending (reply (history_reply W j)) pid"
        "last t' = EngineHistory pid"
        by simp_all
      from ih(1) have ne: "t' \<noteq> []" by auto
      have q: "history_queries t = Suc (history_queries t')" using t by simp
      have idx: "i + history_queries t - 1 = Suc i + history_queries t' - 1" using q ih(1) by simp
      have "pending (reply (history_reply W j)) pid" if "i \<le> j \<and> j < i + history_queries t - 1" for j
      proof (cases "j = i")
        case True
        with p show ?thesis by simp
      next
        case False
        with that idx ih(3) show ?thesis by simp
      qed
      with q idx ih(2) ih(4) ne t show ?thesis by simp
    next
      fix entry' assume r: "reported (reply (history_reply W i)) pid = Some entry'"
      with "1.prems" wait_loop_reported [OF False r] show ?thesis by auto
    next
      fix m assume "failure_of (reply (history_reply W i)) = Some m"
      with "1.prems" show ?thesis by (simp add: wait_loop_failure [OF False])
    qed
  qed
qed

lemma wait_loop_raised:
  "wait_loop W pid timeout i e = (Inl (Exception m), t) \<Longrightarrow>
   0 < history_queries t
   \<and> failure_of (reply (history_reply W (i + history_queries t - 1))) = Some m
   \<and> last t = EngineHistory pid"
proof (induction W pid timeout i e arbitrary: t rule: wait_loop.induct)
  case (1 W pid timeout i e)
  show ?case
  proof (cases "timeout * 1000 < int e")
    case True
    with "1.prems" show ?thesis by (simp add: wait_loop_late)
  next
    case False
    let ?e' = "e + latency (history_reply W i) + 1000 + oversleep (history_reply W i)"
    from reply_cases [of "reply (history_reply W i)" pid] show ?thesis
    proof (elim disjE exE)
      assume p: "pending (reply (history_reply W i)) pid"
      obtain r' t' where n: "wait_loop W pid timeout (Suc i) ?e' = (r', t')"
        by (cases "wait_loop W pid timeout (Suc i) ?e'")
      with "1.prems" wait_loop_pending [OF False p] have r': "r' = Inl (Exception m)"
        and t: "t = [ClockRead e, EngineHistory pid, Sleep 1] @ t'" by simp_all
      from "1.IH" [OF _ refl, of t'] False n r'
      have ih: "0 < history_queries t'"
        "failure_of (reply (history_reply W (Suc i + history_queries t' - 1))) = Some m"
        "last t' = EngineHistory pid"
        by simp_all
      from ih(1) have ne: "t' \<noteq> []" by auto
      have q: "history_queries t = Suc (history_queries t')" using t by simp
      have idx: "i + history_queries t - 1 = Suc i + history_queries t' - 1" using q ih(1) by simp
      with q ih ne t show ?thesis by simp
    next
      fix entry assume r: "reported (reply (history_reply W i)) pid = Some entry"
      with "1.prems" wait_loop_reported [OF False r] show ?thesis by simp
    next
      fix m' assume f: "failure_of (reply (history_reply W i)) = Some m'"
      with "1.prems" wait_loop_failure [OF False f] show ?thesis by auto
    qed
  qed
qed

lemma wait_loop_all_pending:
  "(\<forall>j\<ge>i. pending (reply (history_reply W j)) pid) \<Longrightarrow>
   fst (wait_loop W pid timeout i e) =
     Inl (HTTPException 504 (''Generation timeout after '' @ str_int timeout @ ''s''))"
proof (induction W pid timeout i e rule: wait_loop.induct)
  case (1 W pid timeout i e)
  show ?case
  proof (cases "timeout * 1000 < int e")
    case True
    then show ?thesis by (simp add: wait_loop_late)
  next
    case False
    from "1.prems" have p: "pending (reply (history_reply W i)) pid" by simp
    from "1.prems" have "\<forall>j\<ge>Suc i. pending (reply (history_reply W j)) pid" by simp
    with "1.IH" [OF _ refl] False show ?thesis
      by (simp add: wait_loop_pending [OF False p])
  qed
qed

lemma wait_loop_clock:
  "sorted_wrt (\<lambda>a b. a + 1000 \<le> b) (clock_reads (snd (wait_loop W pid timeout i e)))
   \<and> list_all (\<lambda>x. e \<le> x) (clock_reads (snd (wait_loop W pid timeout i e)))"
proof (induction W pid timeout i e rule: wait_loop.induct)
  case (1 W pid timeout i e)
  show ?case
  proof (cases "timeout * 1000 < int e")
    case True
    then show ?thesis by (simp add: wait_loop_late)
  next
    case False
    let ?e' = "e + latency (history_reply W i) + 1000 + oversleep (history_reply W i)"
    from reply_cases [of "reply (history_reply W i)" pid] show ?thesis
    proof (elim disjE exE)
      assume p: "pending (reply (history_reply W i)) pid"
      from "1.IH" [OF _ refl] False
      have ih: "sorted_wrt (\<lambda>a b. a + 1000 \<le> b) (clock_reads (snd (wait_loop W pid timeout (Suc i) ?e')))"
        "list_all (\<lambda>x. ?e' \<le> x) (clock_reads (snd (wait_loop W pid timeout (Suc i) ?e')))"
        by simp_all
      from ih(2) have "list_all (\<lambda>x. e + 1000 \<le> x) (clock_reads (snd (wait_loop W pid timeout (Suc i) ?e')))"
        by (rule list.pred_mono_strong) simp
      moreover from this have "list_all (\<lambda>x. e \<le> x) (clock_reads (snd (wait_loop W pid timeout (Suc i) ?e')))"
        by (rule list.pred_mono_strong) simp
      ultimately show ?thesis using ih(1)
        by (simp add: wait_loop_pending [OF False p] list_all_iff)
    next
      fix entry assume "reported (reply (history_reply W i)) pid = Some entry"
      then show ?thesis by (simp add: wait_loop_reported [OF False])
    next
      fix m assume "failure_of (reply (history_reply W i)) = Some m"
      then show ?thesis by (simp add: wait_loop_failure [OF False])
    qed
  qed
qed

section \<open>Stored names: shared hash prefix, random suffix\<close>

text \<open>
  Claim C7 (as amended). The stored name is the first 16 digits of the digest of the bytes,
  an underscore, the first 8 hexadecimal digits of a fresh \<^verbatim>\<open>uuid4\<close> draw, and
  \<^verbatim>\<open>.png\<close>. Two saves of the same bytes share the hash prefix, and their names differ
  exactly when the two 8-digit suffixes differ.
\<close>

theorem save_and_hash_image_names:
  assumes "save_and_hash_image W1 data md1 = (Inr (f1, h1), t1)"
      and "save_and_hash_image W2 data md2 = (Inr (f2, h2), t2)"
      and "sha256_hexdigest W1 = sha256_hexdigest W2"
  shows "h1 = take 16 (sha256_hexdigest W1 data) \<and> h2 = h1
       \<and> f1 = h1 @ ''_'' @ take 8 (uuid_hex (uuid4_file W1)) @ ''.png''
       \<and> f2 = h1 @ ''_'' @ take 8 (uuid_hex (uuid4_file W2)) @ ''.png''
       \<and> (f1 \<noteq> f2) = (take 8 (uuid_hex (uuid4_file W1)) \<noteq> take 8 (uuid_hex (uuid4_file W2)))"
  using save_and_hash_image_Inr [OF assms(1)] save_and_hash_image_Inr [OF assms(2)] assms(3)
  by auto

text \<open>Two saves of the same bytes whose draws start with different digits.\<close>

theorem save_and_hash_image_names_witness:
  "fst (save_and_hash_image calm_world ''PNG'' [''prompt'' \<mapsto> JStr ''a lake'']) =
     Inr (take 16 (toy_digest ''PNG'') @ ''_b0000000.png'', take 16 (toy_digest ''PNG''))
   \<and> fst (save_and_hash_image (calm_world\<lparr>uuid4_file := 12 * 16 ^ 31\<rparr>) ''PNG'' [''prompt'' \<mapsto> JStr ''a lake'']) =
     Inr (take 16 (toy_digest ''PNG'') @ ''_c0000000.png'', take 16 (toy_digest ''PNG''))"
proof -
  let ?W2 = "calm_world\<lparr>uuid4_file := 12 * 16 ^ 31\<rparr>"
  let ?md = "[''prompt'' \<mapsto> JStr ''a lake'']"
  obtain f1 h1 t1 where s1: "save_and_hash_image calm_world ''PNG'' ?md = (Inr (f1, h1), t1)"
    using save_and_hash_image_calm [of calm_world ?md "''a lake''" "''PNG''"] by simp
  obtain f2 h2 t2 where s2: "save_and_hash_image ?W2 ''PNG'' ?md = (Inr (f2, h2), t2)"
    using save_and_hash_image_calm [of ?W2 ?md "''a lake''" "''PNG''"] by simp
  have d: "sha256_hexdigest calm_world = sha256_hexdigest ?W2" by simp
  have u1: "take 8 (uuid_hex (uuid4_file calm_world)) = ''b0000000''"
    using take8_high_digit(1) by (simp add: calm_world_def)
  have u2: "take 8 (uuid_hex (uuid4_file ?W2)) = ''c0000000''"
    using take8_high_digit(2) by simp
  have td: "sha256_hexdigest calm_world = toy_digest" by (simp add: calm_world_def)
  from save_and_hash_image_names [OF s1 s2 d] u1 u2 td s1 s2 show ?thesis by simp
qed

text \<open>
  Against C7 as stated: two saves of the same bytes with two different \<^verbatim>\<open>uuid4\<close> draws
  (both well-formed version-4 values) that agree on their first 8 digits get the same name.
\<close>

theorem save_and_hash_image_same_name:
  "uuid4_file twin_world_a \<noteq> uuid4_file twin_world_b
   \<and> fst (save_and_hash_image twin_world_a ''PNG'' [''prompt'' \<mapsto> JStr ''a lake'']) =
     Inr (take 16 (toy_digest ''PNG'') @ ''_00000000.png'', take 16 (toy_digest ''PNG''))
   \<and> fst (save_and_hash_image twin_world_b ''PNG'' [''prompt'' \<mapsto> JStr ''a lake'']) =
     Inr (take 16 (toy_digest ''PNG'') @ ''_00000000.png'', take 16 (toy_digest ''PNG''))"
proof -
  let ?md = "[''prompt'' \<mapsto> JStr ''a lake'']"
  have u1: "take 8 (uuid_hex (uuid4_file twin_world_a)) = ''00000000''"
    using take8_uuid_hex_small [of "4 * 16 ^ 19 + 8 * 16 ^ 15 + 1"]
    by (simp add: hex_digit_values zeros8 twin_world_a_def)
  have u2: "take 8 (uuid_hex (uuid4_file twin_world_b)) = ''00000000''"
    using take8_uuid_hex_small [of "4 * 16 ^ 19 + 8 * 16 ^ 15 + 2"]
    by (simp add: hex_digit_values zeros8 twin_world_b_def)
  have td: "sha256_hexdigest twin_world_a = toy_digest" "sha256_hexdigest twin_world_b = toy_digest"
    by (simp_all add: calm_world_def twin_world_a_def twin_world_b_def)
  have fw: "file_write twin_world_a = file_write calm_world" "file_write twin_world_b = file_write calm_world"
    by (simp_all add: twin_world_a_def twin_world_b_def)
  have s1: "fst (save_and_hash_image twin_world_a ''PNG'' ?md) =
     Inr (take 16 (toy_digest ''PNG'') @ ''_00000000.png'', take 16 (toy_digest ''PNG''))"
    using save_and_hash_image_calm [OF fw(1), of ?md "''a lake''" "''PNG''"] u1 td by simp
  have s2: "fst (save_and_hash_image twin_world_b ''PNG'' ?md) =
     Inr (take 16 (toy_digest ''PNG'') @ ''_00000000.png'', take 16 (toy_digest ''PNG''))"
    using save_and_hash_image_calm [OF fw(2), of ?md "''a lake''" "''PNG''"] u2 td by simp
  have "uuid4_file twin_world_a \<noteq> uuid4_file twin_world_b"
    by (simp add: twin_world_a_def twin_world_b_def)
  with s1 s2 show ?thesis by simp
qed

section \<open>The audit entry and the prompt\<close>





section \<open>Resolved parameters and the seed\<close>

text \<open>
  Claim C6 (as amended). A request field that is given and not zero overrides the process
  default; an absent field takes the default, and so does an explicit zero, which the code
  treats like an absent field. A positive requested seed is the resolved seed; an absent
  or non-positive one is replaced by a \<^verbatim>\<open>uuid4\<close> draw modulo \<open>2\<^sup>3\<^sup>2\<close>. The resolved seed
  is the one in the submitted graph, in the audit entry, in the synchronous response's
  \<^verbatim>\<open>seed_used\<close> and in the success callback's \<^verbatim>\<open>seed_used\<close>.
\<close>

theorem resolved_parameters_recorded:
  "(\<forall>v. seed req = Some v \<and> 0 < v \<longrightarrow> resolve_seed W (seed req) = v)
   \<and> (seed req = None \<or> (\<exists>v. seed req = Some v \<and> v \<le> 0) \<longrightarrow>
        resolve_seed W (seed req) = int (uuid4_seed W mod 2 ^ 32))
   \<and> (\<forall>v. steps req = Some v \<and> v \<noteq> 0 \<longrightarrow>
        jget (request_workflow W cfg req) [''3'', ''inputs'', ''steps''] = Some (JInt v))
   \<and> (\<forall>v. cfg_scale req = Some v \<and> v \<noteq> 0 \<longrightarrow>
        jget (request_workflow W cfg req) [''3'', ''inputs'', ''cfg''] = Some (JFloat v))
   \<and> (\<forall>v. width req = Some v \<and> v \<noteq> 0 \<longrightarrow>
        jget (request_workflow W cfg req) [''5'', ''inputs'', ''width''] = Some (JInt v))
   \<and> (\<forall>v. height req = Some v \<and> v \<noteq> 0 \<longrightarrow>
        jget (request_workflow W cfg req) [''5'', ''inputs'', ''height''] = Some (JInt v))
   \<and> (steps req = None \<or> steps req = Some 0 \<longrightarrow>
        jget (request_workflow W cfg req) [''3'', ''inputs'', ''steps''] = Some (JInt (DEFAULT_STEPS cfg)))
   \<and> (cfg_scale req = None \<or> cfg_scale req = Some 0 \<longrightarrow>
        jget (request_workflow W cfg req) [''3'', ''inputs'', ''cfg''] = Some (JFloat (DEFAULT_CFG cfg)))
   \<and> (width req = None \<or> width req = Some 0 \<longrightarrow>
        jget (request_workflow W cfg req) [''5'', ''inputs'', ''width''] = Some (JInt (DEFAULT_WIDTH cfg)))
   \<and> (height req = None \<or> height req = Some 0 \<longrightarrow>
        jget (request_workflow W cfg req) [''5'', ''inputs'', ''height''] = Some (JInt (DEFAULT_HEIGHT cfg)))
   \<and> jget (request_workflow W cfg req) [''3'', ''inputs'', ''seed''] =
        Some (JInt (resolve_seed W (seed req)))
   \<and> (\<forall>resp t. generate_image W cfg creds req = (Inr resp, t) \<and> success resp \<longrightarrow>
          seed_used resp = Some (resolve_seed W (seed req))
        \<and> submitted t = [request_workflow W cfg req]
        \<and> length (audit_entries t) = 1
        \<and> jget (hd (audit_entries t)) [''seed''] = Some (JInt (resolve_seed W (seed req))))
   \<and> (\<forall>f h s t. generation_body W cfg areq = (Inr (f, h, s), t) \<longrightarrow>
          s = resolve_seed W (seed areq)
        \<and> length (audit_entries (snd (process_async_generation W cfg areq))) = 1
        \<and> jget (hd (audit_entries (snd (process_async_generation W cfg areq)))) [''seed''] = Some (JInt s)
        \<and> (case hd (callback_posts (snd (process_async_generation W cfg areq))) of
              CallbackPost url payload secs \<Rightarrow>
                jget payload [''seed_used''] = Some (JInt s)
                \<and> jget payload [''status''] = Some (JStr ''completed'')
            | _ \<Rightarrow> False))"
proof -
  note v = request_workflow_values [of W cfg req]
  have a: "resolve_seed W (seed req) = v" if "seed req = Some v" "0 < v" for v
    using that by (simp add: resolve_seed_def)
  have b: "resolve_seed W (seed req) = int (uuid4_seed W mod 2 ^ 32)"
    if "seed req = None \<or> (\<exists>v. seed req = Some v \<and> v \<le> 0)"
    using that by (auto simp add: resolve_seed_def)
  have c: "seed_used resp = Some (resolve_seed W (seed req))
        \<and> submitted t = [request_workflow W cfg req]
        \<and> length (audit_entries t) = 1
        \<and> jget (hd (audit_entries t)) [''seed''] = Some (JInt (resolve_seed W (seed req)))"
    if "generate_image W cfg creds req = (Inr resp, t)" "success resp" for resp t
  proof -
    from generate_image_success [OF that] obtain f h where
      g: "generation_body W cfg req = (Inr (f, h, resolve_seed W (seed req)), t)" and
      r: "seed_used resp = Some (resolve_seed W (seed req))"
      by auto
    from generation_body_submitted [of W cfg req] g have "submitted t = [request_workflow W cfg req]"
      by simp
    with r generation_body_audit [OF g] show ?thesis by simp
  qed
  have d: "s = resolve_seed W (seed areq)
        \<and> length (audit_entries (snd (process_async_generation W cfg areq))) = 1
        \<and> jget (hd (audit_entries (snd (process_async_generation W cfg areq)))) [''seed''] = Some (JInt s)
        \<and> (case hd (callback_posts (snd (process_async_generation W cfg areq))) of
              CallbackPost url payload secs \<Rightarrow>
                jget payload [''seed_used''] = Some (JInt s)
                \<and> jget payload [''status''] = Some (JStr ''completed'')
            | _ \<Rightarrow> False)"
    if "generation_body W cfg areq = (Inr (f, h, s), t)" for f h s t
  proof -
    from generation_body_Inr [OF that] have "s = resolve_seed W (seed areq)" by blast
    with process_async_generation_ok(1,2) [OF that] generation_body_audit [OF that]
    show ?thesis by simp
  qed
  from v(2) have s: "jget (request_workflow W cfg req) [''3'', ''inputs'', ''steps''] = Some (JInt x)"
    if "steps req = Some x" "x \<noteq> 0" for x using that by (simp add: or_default_simps)
  from v(3) have cf: "jget (request_workflow W cfg req) [''3'', ''inputs'', ''cfg''] = Some (JFloat x)"
    if "cfg_scale req = Some x" "x \<noteq> 0" for x using that by (simp add: or_default_simps)
  from v(4) have w: "jget (request_workflow W cfg req) [''5'', ''inputs'', ''width''] = Some (JInt x)"
    if "width req = Some x" "x \<noteq> 0" for x using that by (simp add: or_default_simps)
  from v(5) have h: "jget (request_workflow W cfg req) [''5'', ''inputs'', ''height''] = Some (JInt x)"
    if "height req = Some x" "x \<noteq> 0" for x using that by (simp add: or_default_simps)
  from v(2) have s0: "jget (request_workflow W cfg req) [''3'', ''inputs'', ''steps''] = Some (JInt (DEFAULT_STEPS cfg))"
    if "steps req = None \<or> steps req = Some 0" using that by (auto simp add: or_default_simps)
  from v(3) have cf0: "jget (request_workflow W cfg req) [''3'', ''inputs'', ''cfg''] = Some (JFloat (DEFAULT_CFG cfg))"
    if "cfg_scale req = None \<or> cfg_scale req = Some 0" using that by (auto simp add: or_default_simps)
  from v(4) have w0: "jget (request_workflow W cfg req) [''5'', ''inputs'', ''width''] = Some (JInt (DEFAULT_WIDTH cfg))"
    if "width req = None \<or> width req = Some 0" using that by (auto simp add: or_default_simps)
  from v(5) have h0: "jget (request_workflow W cfg req) [''5'', ''inputs'', ''height''] = Some (JInt (DEFAULT_HEIGHT cfg))"
    if "height req = None \<or> height req = Some 0" using that by (auto simp add: or_default_simps)
  show ?thesis
    apply (intro conjI allI impI)
    using a b c d s cf w h s0 cf0 w0 h0 v(1) by blast+
qed

text \<open>
  A synchronous request with seed 42 and no other field set, an asynchronous one with a
  negative seed, both against the calm collaborators.
\<close>

theorem resolved_parameters_recorded_witness:
  "resolve_seed calm_world (seed sample_request) = 42
   \<and> resolve_seed calm_world (seed (sample_async_request\<lparr>seed := Some (- 1)\<rparr>)) = 7
   \<and> jget (request_workflow calm_world default_config sample_request) [''3'', ''inputs'', ''steps''] = Some (JInt 32)
   \<and> jget (request_workflow calm_world default_config (sample_request\<lparr>steps := Some 20\<rparr>))
        [''3'', ''inputs'', ''steps''] = Some (JInt 20)
   \<and> map_sum id seed_used (fst (generate_image calm_world default_config None sample_request)) = Inr (Some 42)
   \<and> jget (hd (audit_entries (snd (generate_image calm_world default_config None sample_request)))) [''seed'']
        = Some (JInt 42)
   \<and> jget (hd (audit_entries (snd (process_async_generation calm_world default_config
         (sample_async_request\<lparr>seed := Some (- 1)\<rparr>))))) [''seed''] = Some (JInt 7)"
proof -
  let ?a = "sample_async_request\<lparr>seed := Some (- 1)\<rparr>"
  let ?r20 = "sample_request\<lparr>steps := Some 20\<rparr>"
  note T = resolved_parameters_recorded [of sample_request calm_world default_config None ?a]
  note T20 = resolved_parameters_recorded [of ?r20 calm_world default_config None ?a]
  have s42: "seed sample_request = Some 42 \<and> (0::int) < 42" by (simp add: sample_request_def)
  with T have r1: "resolve_seed calm_world (seed sample_request) = 42" by blast
  have "seed ?a = Some (- 1) \<and> (- 1 :: int) \<le> 0" by simp
  then have "resolve_seed calm_world (seed ?a) = int (uuid4_seed calm_world mod 2 ^ 32)"
    using resolved_parameters_recorded [of ?a calm_world default_config None ?a] by blast
  then have r2: "resolve_seed calm_world (seed ?a) = 7" by (simp add: calm_world_def)
  have "steps sample_request = None \<or> steps sample_request = Some 0" by (simp add: sample_request_def)
  with T have r3: "jget (request_workflow calm_world default_config sample_request) [''3'', ''inputs'', ''steps'']
      = Some (JInt 32)" by (simp add: default_config_def)
  have "steps ?r20 = Some 20 \<and> (20::int) \<noteq> 0" by simp
  with T20 have r4: "jget (request_workflow calm_world default_config ?r20) [''3'', ''inputs'', ''steps'']
      = Some (JInt 20)" by blast
  have v: "validate_prompt default_config (prompt sample_request) = (True, [])"
    using safe_lake by (simp add: sample_request_def)
  obtain resp t where g: "generate_image calm_world default_config None sample_request = (Inr resp, t)"
    and ok: "success resp"
    using generate_image_valid [OF verify_open v, of calm_world None]
          generation_body_calm [of calm_world default_config sample_request]
    by simp
  from T g ok r1 have r5: "seed_used resp = Some 42"
    and r6: "jget (hd (audit_entries t)) [''seed''] = Some (JInt 42)" by auto
  obtain f h s t' where gb: "generation_body calm_world default_config ?a = (Inr (f, h, s), t')"
    using generation_body_calm [of calm_world default_config ?a] by simp
  from T gb r2 have r7: "jget (hd (audit_entries (snd (process_async_generation calm_world default_config ?a))))
      [''seed''] = Some (JInt 7)" by auto
  from r1 r2 r3 r4 r5 r6 r7 g show ?thesis by simp
qed

text \<open>
  Against C6 as stated: a request that sets \<^verbatim>\<open>steps\<close> to 0 explicitly gets the process
  default of 32 steps in its graph.
\<close>

theorem explicit_zero_steps_not_kept:
  "steps (sample_request\<lparr>steps := Some 0\<rparr>) = Some 0
   \<and> DEFAULT_STEPS default_config = 32
   \<and> jget (request_workflow calm_world default_config (sample_request\<lparr>steps := Some 0\<rparr>))
        [''3'', ''inputs'', ''steps''] = Some (JInt 32)"
  by (simp add: request_workflow_values or_default_simps default_config_def)

section \<open>The safety verdict reads the prompt only\<close>

lemma generate_image_submitted:
  assumes "verify_api_key cfg creds = Inr True" and "fst (validate_prompt cfg (prompt req))"
  shows "submitted (snd (generate_image W cfg creds req)) = [request_workflow W cfg req]"
proof -
  obtain err where v: "validate_prompt cfg (prompt req) = (True, err)"
    using assms(2) by (cases "validate_prompt cfg (prompt req)") auto
  obtain r t where g: "generation_body W cfg req = (r, t)" by (cases "generation_body W cfg req")
  with generation_body_submitted [of W cfg req] have "submitted t = [request_workflow W cfg req]"
    by simp
  with g show ?thesis
    by (auto simp add: generate_image_valid [OF assms(1) v] split: sum.split exn.split)
qed

lemma process_async_generation_submitted:
  "submitted (snd (process_async_generation W cfg req)) = [request_workflow W cfg req]"
proof -
  obtain r t where g: "generation_body W cfg req = (r, t)" by (cases "generation_body W cfg req")
  with generation_body_submitted [of W cfg req] have "submitted t = [request_workflow W cfg req]"
    by simp
  with g show ?thesis
    by (auto simp add: process_async_generation_def send_error_callback_def Let_def
             split: sum.split outcome.split)
qed

lemma generate_image_rejected:
  assumes "verify_api_key cfg creds = Inr True"
  shows "(fst (generate_image W cfg creds req) = Inl (HTTPException 400 d)) =
         (\<not> fst (validate_prompt cfg (prompt req)) \<and> d = snd (validate_prompt cfg (prompt req)))"
proof (cases "fst (validate_prompt cfg (prompt req))")
  case True
  then obtain err where v: "validate_prompt cfg (prompt req) = (True, err)"
    by (cases "validate_prompt cfg (prompt req)") auto
  obtain r t where g: "generation_body W cfg req = (r, t)" by (cases "generation_body W cfg req")
  have "fst (generate_image W cfg creds req) \<noteq> Inl (HTTPException 400 d)"
  proof (cases r)
    case (Inl e)
    show ?thesis
    proof (cases e)
      case (HTTPException c d')
      with generation_body_http [of W cfg req c d' t] g Inl have "c = 500 \<or> c = 504" by simp
      with g Inl HTTPException show ?thesis
        by (auto simp add: generate_image_valid [OF assms v])
    next
      case (Exception m)
      with g Inl show ?thesis by (simp add: generate_image_valid [OF assms v])
    qed
  next
    case (Inr x)
    with g show ?thesis by (auto simp add: generate_image_valid [OF assms v] split: prod.splits)
  qed
  with True show ?thesis by simp
next
  case False
  with assms show ?thesis
    by (cases "validate_prompt cfg (prompt req)") (auto simp add: generate_image_def)
qed

lemma generate_image_async_cases:
  assumes "verify_api_key cfg creds = Inr True"
  shows "generate_image_async cfg creds areq =
           (if fst (validate_prompt cfg (prompt areq))
            then (Inr \<lparr> status = ''queued'', request_id = request_id areq,
                        message = ''Image generation started in background'' \<rparr>, [areq])
            else (Inl (HTTPException 400 (snd (validate_prompt cfg (prompt areq)))), []))"
  using assms
  by (cases "validate_prompt cfg (prompt areq)") (simp add: generate_image_async_def)

text \<open>
  Claim C10. On both endpoints the verdict of the safety filter is that of the request's
  prompt field alone. A request whose prompt is rejected gets HTTP 400 with the filter's
  message and nothing is submitted; a request whose prompt passes is never answered with
  400 and its job graph is submitted to the engine (by the handler itself, or by the queued
  background run), whatever its other fields hold. The negative prompt is not inspected:
  it goes into the graph's negative text encoder, in front of the mandatory block.
\<close>

theorem safety_verdict_from_prompt_only:
  assumes "verify_api_key cfg creds = Inr True"
  shows "(\<not> fst (validate_prompt cfg (prompt req)) \<longrightarrow>
            generate_image W cfg creds req =
              (Inl (HTTPException 400 (snd (validate_prompt cfg (prompt req)))), []))
       \<and> (fst (validate_prompt cfg (prompt req)) \<longrightarrow>
            submitted (snd (generate_image W cfg creds req)) = [request_workflow W cfg req]
          \<and> (\<forall>d. fst (generate_image W cfg creds req) \<noteq> Inl (HTTPException 400 d)))
       \<and> (\<not> fst (validate_prompt cfg (prompt areq)) \<longrightarrow>
            generate_image_async cfg creds areq =
              (Inl (HTTPException 400 (snd (validate_prompt cfg (prompt areq)))), []))
       \<and> (fst (validate_prompt cfg (prompt areq)) \<longrightarrow>
            generate_image_async cfg creds areq =
              (Inr \<lparr> status = ''queued'', request_id = request_id areq,
                     message = ''Image generation started in background'' \<rparr>, [areq])
          \<and> submitted (snd (process_async_generation W cfg areq)) = [request_workflow W cfg areq])
       \<and> (prompt req' = prompt req \<longrightarrow>
            (\<forall>d. (fst (generate_image W' cfg creds req') = Inl (HTTPException 400 d)) =
                 (fst (generate_image W cfg creds req) = Inl (HTTPException 400 d))))
       \<and> (prompt areq' = prompt areq \<longrightarrow>
            (\<forall>d. (fst (generate_image_async cfg creds areq') = Inl (HTTPException 400 d)) =
                 (fst (generate_image_async cfg creds areq) = Inl (HTTPException 400 d))))
       \<and> jget (request_workflow W cfg req) [''7'', ''inputs'', ''text''] =
           Some (JStr (snd (build_safe_prompt (prompt req)
                             (case negative_prompt req of None \<Rightarrow> [] | Some n \<Rightarrow> n))))"
proof -
  have a: "generate_image W cfg creds req =
              (Inl (HTTPException 400 (snd (validate_prompt cfg (prompt req)))), [])"
    if "\<not> fst (validate_prompt cfg (prompt req))"
    using that assms by (cases "validate_prompt cfg (prompt req)") (simp add: generate_image_def)
  have b: "submitted (snd (generate_image W cfg creds req)) = [request_workflow W cfg req]
          \<and> (\<forall>d. fst (generate_image W cfg creds req) \<noteq> Inl (HTTPException 400 d))"
    if "fst (validate_prompt cfg (prompt req))"
    using that generate_image_submitted [OF assms that, of W] generate_image_rejected [OF assms, of W req]
    by simp
  note c = generate_image_async_cases [OF assms, of areq]
  have e: "(fst (generate_image W' cfg creds req') = Inl (HTTPException 400 d)) =
           (fst (generate_image W cfg creds req) = Inl (HTTPException 400 d))"
    if "prompt req' = prompt req" for d
    using that generate_image_rejected [OF assms, of W' req' d] generate_image_rejected [OF assms, of W req d]
    by simp
  have f: "(fst (generate_image_async cfg creds areq') = Inl (HTTPException 400 d)) =
           (fst (generate_image_async cfg creds areq) = Inl (HTTPException 400 d))"
    if "prompt areq' = prompt areq" for d
    using that generate_image_async_cases [OF assms, of areq'] c by simp
  note g = request_workflow_values(8) [of W cfg req]
  note h = process_async_generation_submitted [of W cfg areq]
  show ?thesis
    apply (intro conjI impI allI)
    subgoal using a by blast
    subgoal using b by blast
    subgoal using b by blast
    subgoal using c by simp
    subgoal using c by simp
    subgoal by (rule h)
    subgoal using e by blast
    subgoal using f by blast
    subgoal by (rule g)
    done
qed

lemma banned_name: "validate_prompt default_config ''rihanna'' = (False, ''Prompt rejected: celebrities content not allowed'')"
  by code_simp

text \<open>
  A request with a harmless prompt and a banned name as its negative prompt: the name alone
  would be rejected, the request is not; its graph is submitted with the name in the
  negative text.
\<close>

theorem safety_verdict_from_prompt_only_witness:
  "validate_prompt default_config ''rihanna'' =
     (False, ''Prompt rejected: celebrities content not allowed'')
   \<and> submitted (snd (generate_image calm_world default_config None
         (sample_request\<lparr>negative_prompt := Some ''rihanna''\<rparr>))) =
     [request_workflow calm_world default_config (sample_request\<lparr>negative_prompt := Some ''rihanna''\<rparr>)]
   \<and> jget (request_workflow calm_world default_config (sample_request\<lparr>negative_prompt := Some ''rihanna''\<rparr>))
        [''7'', ''inputs'', ''text''] = Some (JStr (''rihanna, '' @ mandatory_block))
   \<and> generate_image calm_world default_config None (sample_request\<lparr>prompt := ''rihanna''\<rparr>) =
       (Inl (HTTPException 400 ''Prompt rejected: celebrities content not allowed''), [])"
proof -
  let ?r = "sample_request\<lparr>negative_prompt := Some ''rihanna''\<rparr>"
  let ?b = "sample_request\<lparr>prompt := ''rihanna''\<rparr>"
  have v: "fst (validate_prompt default_config (prompt ?r))"
    using safe_lake by (simp add: sample_request_def)
  have nv: "\<not> fst (validate_prompt default_config (prompt ?b))"
    using banned_name by simp
  have n: "snd (build_safe_prompt (prompt ?r) (case negative_prompt ?r of None \<Rightarrow> [] | Some n \<Rightarrow> n))
           = ''rihanna, '' @ mandatory_block"
    using build_safe_prompt_with_terms [of "''rihanna''" "''a lake''"]
    by (simp add: sample_request_def is_space_def)
  note T = safety_verdict_from_prompt_only [OF verify_open, where req = ?r and W = calm_world and creds = None]
  from T v have 1: "submitted (snd (generate_image calm_world default_config None ?r)) =
             [request_workflow calm_world default_config ?r]"
    by blast
  from T have "jget (request_workflow calm_world default_config ?r) [''7'', ''inputs'', ''text''] =
      Some (JStr (snd (build_safe_prompt (prompt ?r) (case negative_prompt ?r of None \<Rightarrow> [] | Some n \<Rightarrow> n))))"
    by blast
  with n have 2: "jget (request_workflow calm_world default_config ?r) [''7'', ''inputs'', ''text''] =
             Some (JStr (''rihanna, '' @ mandatory_block))"
    by (simp only:)
  note T' = safety_verdict_from_prompt_only [OF verify_open, where req = ?b and W = calm_world and creds = None]
  from T' nv have "generate_image calm_world default_config None ?b =
       (Inl (HTTPException 400 (snd (validate_prompt default_config (prompt ?b)))), [])"
    by blast
  with banned_name have 3: "generate_image calm_world default_config None ?b =
       (Inl (HTTPException 400 ''Prompt rejected: celebrities content not allowed''), [])"
    by simp
  from banned_name 1 2 3 show ?thesis by (intro conjI)
qed

section \<open>Errors of the synchronous endpoint\<close>

text \<open>
  Claim C1 (as amended). For a synchronous request that passes authentication and the
  safety filter: an \<^verbatim>\<open>HTTPException\<close> raised in the pipeline leaves the handler unchanged,
  as HTTP 500 or 504: the engine refusing the job (500), a completed record without an
  image (500) and the poll deadline (504). Every other exception (the engine cannot be
  reached, a reply cannot be decoded, the file cannot be written) is answered in band,
  with \<^verbatim>\<open>success = false\<close> and the exception's message, and logged; an in-band failure
  has no other origin.
\<close>

theorem generate_image_error_routing:
  assumes "verify_api_key cfg creds = Inr True" and "fst (validate_prompt cfg (prompt req))"
  shows "(\<forall>c d t. generation_body W cfg req = (Inl (HTTPException c d), t) \<longrightarrow>
            generate_image W cfg creds req = (Inl (HTTPException c d), t) \<and> (c = 500 \<or> c = 504))
       \<and> (\<forall>m t. generation_body W cfg req = (Inl (Exception m), t) \<longrightarrow>
            generate_image W cfg creds req =
              (Inr \<lparr> success = False, image_url = None, image_hash = None, seed_used = None,
                     error = Some m \<rparr>,
               t @ [LogError (''Generation failed: '' @ m)]))
       \<and> (\<forall>r. submit_reply W (request_workflow W cfg req) = Returns r \<and> status_code r \<noteq> 200 \<longrightarrow>
            fst (generate_image W cfg creds req) =
              Inl (HTTPException 500 (''ComfyUI error: '' @ body_text r)))
       \<and> (\<forall>m. submit_reply W (request_workflow W cfg req) = Raises m \<longrightarrow>
            fst (generate_image W cfg creds req) =
              Inr \<lparr> success = False, image_url = None, image_hash = None, seed_used = None,
                    error = Some m \<rparr>)
       \<and> (\<forall>pid t1 entry t2.
            queue_prompt W (request_workflow W cfg req) = (Inr pid, t1)
            \<and> wait_for_completion W pid 300 = (Inr entry, t2)
            \<and> list_all (\<lambda>item. images (snd item) = None)
                 (case outputs entry of None \<Rightarrow> [] | Some items \<Rightarrow> items) \<longrightarrow>
            fst (generate_image W cfg creds req) =
              Inl (HTTPException 500 ''No image found in output''))
       \<and> (\<forall>resp. fst (generate_image W cfg creds req) = Inr resp \<and> \<not> success resp \<longrightarrow>
            (\<exists>m t. generation_body W cfg req = (Inl (Exception m), t) \<and> error resp = Some m))"
proof -
  obtain err where v: "validate_prompt cfg (prompt req) = (True, err)"
    using assms(2) by (cases "validate_prompt cfg (prompt req)") auto
  note gi = generate_image_valid [OF assms(1) v, of W]
  have a: "generate_image W cfg creds req = (Inl (HTTPException c d), t) \<and> (c = 500 \<or> c = 504)"
    if "generation_body W cfg req = (Inl (HTTPException c d), t)" for c d t
    using that generation_body_http [OF that] by (simp add: gi)
  have b: "generate_image W cfg creds req =
              (Inr \<lparr> success = False, image_url = None, image_hash = None, seed_used = None,
                     error = Some m \<rparr>,
               t @ [LogError (''Generation failed: '' @ m)])"
    if "generation_body W cfg req = (Inl (Exception m), t)" for m t
    using that by (simp add: gi)
  have c: "fst (generate_image W cfg creds req) =
              Inl (HTTPException 500 (''ComfyUI error: '' @ body_text r))"
    if "submit_reply W (request_workflow W cfg req) = Returns r \<and> status_code r \<noteq> 200" for r
    using that generation_body_refused [of W cfg req r] by (simp add: gi)
  have d: "fst (generate_image W cfg creds req) =
              Inr \<lparr> success = False, image_url = None, image_hash = None, seed_used = None,
                    error = Some m \<rparr>"
    if "submit_reply W (request_workflow W cfg req) = Raises m" for m
    using that generation_body_unreachable [of W cfg req m] by (simp add: gi)
  have e: "fst (generate_image W cfg creds req) = Inl (HTTPException 500 ''No image found in output'')"
    if "queue_prompt W (request_workflow W cfg req) = (Inr pid, t1)
            \<and> wait_for_completion W pid 300 = (Inr entry, t2)
            \<and> list_all (\<lambda>item. images (snd item) = None)
                 (case outputs entry of None \<Rightarrow> [] | Some items \<Rightarrow> items)" for pid t1 entry t2
    using that generation_body_no_artifact [of W cfg req pid t1 entry t2] by (simp add: gi)
  have f: "\<exists>m t. generation_body W cfg req = (Inl (Exception m), t) \<and> error resp = Some m"
    if "fst (generate_image W cfg creds req) = Inr resp \<and> \<not> success resp" for resp
  proof -
    obtain r t where g: "generation_body W cfg req = (r, t)" by (cases "generation_body W cfg req")
    show ?thesis
    proof (cases r)
      case (Inl ex)
      with that g show ?thesis by (cases ex) (auto simp add: gi)
    next
      case (Inr x)
      with that g show ?thesis by (auto simp add: gi split: prod.splits)
    qed
  qed
  show ?thesis
    apply (intro conjI allI impI)
    subgoal using a by blast
    subgoal using a by blast
    subgoal using b by blast
    subgoal using c by blast
    subgoal using d by blast
    subgoal using e by blast
    subgoal using f by blast
    done
qed

lemma sample_prompt_passes: "fst (validate_prompt default_config (prompt sample_request))"
  using safe_lake by (simp add: sample_request_def)

lemma refusing_run:
  "generation_body refusing_world default_config sample_request =
     (Inl (HTTPException 500 ''ComfyUI error: busy''),
      [EngineSubmit (request_workflow refusing_world default_config sample_request) 30])"
  using generation_body_refused [of refusing_world default_config sample_request
          "\<lparr> status_code = 503, body_text = ''busy'', body = Raises ''Expecting value'' \<rparr>"]
  by (simp add: refusing_world_def)

lemma imageless_run:
  "fst (generation_body imageless_world default_config sample_request) =
     Inl (HTTPException 500 ''No image found in output'')"
proof -
  have q: "queue_prompt imageless_world g = (Inr ''job-1'', [EngineSubmit g 30])" for g
    by (simp add: queue_prompt_def imageless_world_def calm_world_def)
  have w: "wait_for_completion imageless_world ''job-1'' 300 =
      (Inr \<lparr> outputs = Some [(''9'', \<lparr> images = None \<rparr>)] \<rparr>, [ClockRead 0, EngineHistory ''job-1''])"
    by (simp add: wait_for_completion_def wait_loop.simps [of _ _ _ 0 0] imageless_world_def)
  show ?thesis
    using generation_body_no_artifact [OF q w, of default_config sample_request] by simp
qed

text \<open>
  The engine answers the submission with 503: HTTP 500 leaves the handler. The network
  is down: the failure is answered in band.
\<close>

theorem generate_image_error_routing_witness:
  "fst (generate_image refusing_world default_config None sample_request) =
     Inl (HTTPException 500 ''ComfyUI error: busy'')
   \<and> fst (generate_image offline_world default_config None sample_request) =
     Inr \<lparr> success = False, image_url = None, image_hash = None, seed_used = None,
           error = Some ''ConnectError'' \<rparr>"
proof -
  note T1 = generate_image_error_routing [OF verify_open sample_prompt_passes, of refusing_world None]
  note T2 = generate_image_error_routing [OF verify_open sample_prompt_passes, of offline_world None]
  have "submit_reply refusing_world (request_workflow refusing_world default_config sample_request) =
          Returns \<lparr> status_code = 503, body_text = ''busy'', body = Raises ''Expecting value'' \<rparr>
        \<and> status_code \<lparr> status_code = 503, body_text = ''busy'', body = Raises ''Expecting value'' :: string outcome \<rparr> \<noteq> 200"
    by (simp add: refusing_world_def)
  with T1 have 1: "fst (generate_image refusing_world default_config None sample_request) =
     Inl (HTTPException 500 (''ComfyUI error: '' @
       body_text \<lparr> status_code = 503, body_text = ''busy'', body = Raises ''Expecting value'' :: string outcome \<rparr>))"
    by blast
  have "submit_reply offline_world (request_workflow offline_world default_config sample_request) =
          Raises ''ConnectError''"
    by (simp add: offline_world_def)
  with T2 have 2: "fst (generate_image offline_world default_config None sample_request) =
     Inr \<lparr> success = False, image_url = None, image_hash = None, seed_used = None,
           error = Some ''ConnectError'' \<rparr>"
    by blast
  from 1 2 show ?thesis by simp
qed

text \<open>
  Against C1 as stated: the request passes the safety filter; the engine refuses the job
  in one run and reports a completed record without an image in the other; both times the
  caller gets HTTP 500, not a response with \<^verbatim>\<open>success = false\<close>.
\<close>

theorem engine_refusal_is_http_error:
  "fst (validate_prompt default_config (prompt sample_request))
   \<and> fst (generate_image refusing_world default_config None sample_request) =
       Inl (HTTPException 500 ''ComfyUI error: busy'')
   \<and> fst (generate_image imageless_world default_config None sample_request) =
       Inl (HTTPException 500 ''No image found in output'')"
proof -
  have v: "validate_prompt default_config (prompt sample_request) = (True, [])"
    using safe_lake by (simp add: sample_request_def)
  have 1: "fst (generate_image refusing_world default_config None sample_request) =
       Inl (HTTPException 500 ''ComfyUI error: busy'')"
    using refusing_run by (simp add: generate_image_valid [OF verify_open v])
  obtain t where "generation_body imageless_world default_config sample_request =
       (Inl (HTTPException 500 ''No image found in output''), t)"
    using imageless_run by (cases "generation_body imageless_world default_config sample_request") simp
  then have 2: "fst (generate_image imageless_world default_config None sample_request) =
       Inl (HTTPException 500 ''No image found in output'')"
    by (simp add: generate_image_valid [OF verify_open v])
  from v 1 2 show ?thesis by simp
qed

section \<open>The background run and its callback\<close>






section \<open>The poll loop: pacing, deadline, outcomes\<close>

text \<open>
  Claim C5 (as amended). The loop works in rounds: it reads the clock, queries the status
  of the handle, and sleeps one second before the next round, so that two clock readings
  are at least a second apart. It reports a timeout (HTTP 504) only at a clock reading
  beyond the deadline, every earlier reading being within it. It returns a record only
  from the first reply that reports the handle, and that query is its last effect. A reply
  that is a response without the handle (a status other than 200, or a body that lacks the
  handle) leaves the job pending: the loop sleeps and polls again, and if every reply is
  of that kind it ends in the timeout. A query that raises (the engine cannot be reached,
  or the body of a 200 response cannot be decoded) ends the loop at once with that error.
  The callers pass the default deadline of 300 seconds.
\<close>

theorem wait_for_completion_polling:
  "paced pid (snd (wait_for_completion W pid timeout))
   \<and> sorted_wrt (\<lambda>a b. a + 1000 \<le> b) (clock_reads (snd (wait_for_completion W pid timeout)))
   \<and> (\<forall>c d t. wait_for_completion W pid timeout = (Inl (HTTPException c d), t) \<longrightarrow>
          c = 504 \<and> d = ''Generation timeout after '' @ str_int timeout @ ''s''
        \<and> clock_reads t \<noteq> [] \<and> timeout * 1000 < int (last (clock_reads t))
        \<and> list_all (\<lambda>x. int x \<le> timeout * 1000) (butlast (clock_reads t)))
   \<and> (\<forall>entry t. wait_for_completion W pid timeout = (Inr entry, t) \<longrightarrow>
          0 < history_queries t
        \<and> reported (reply (history_reply W (history_queries t - 1))) pid = Some entry
        \<and> (\<forall>j. j < history_queries t - 1 \<longrightarrow> pending (reply (history_reply W j)) pid)
        \<and> last t = EngineHistory pid)
   \<and> (\<forall>m t. wait_for_completion W pid timeout = (Inl (Exception m), t) \<longrightarrow>
          0 < history_queries t
        \<and> failure_of (reply (history_reply W (history_queries t - 1))) = Some m
        \<and> last t = EngineHistory pid)
   \<and> ((\<forall>j. pending (reply (history_reply W j)) pid) \<longrightarrow>
        fst (wait_for_completion W pid timeout) =
          Inl (HTTPException 504 (''Generation timeout after '' @ str_int timeout @ ''s'')))
   \<and> (\<forall>i e. \<not> timeout * 1000 < int e \<and> pending (reply (history_reply W i)) pid \<longrightarrow>
        wait_loop W pid timeout i e =
          (fst (wait_loop W pid timeout (Suc i)
                  (e + latency (history_reply W i) + 1000 + oversleep (history_reply W i))),
           [ClockRead e, EngineHistory pid, Sleep 1] @
           snd (wait_loop W pid timeout (Suc i)
                  (e + latency (history_reply W i) + 1000 + oversleep (history_reply W i)))))
   \<and> (\<forall>i e entry. \<not> timeout * 1000 < int e \<and> reported (reply (history_reply W i)) pid = Some entry \<longrightarrow>
        wait_loop W pid timeout i e = (Inr entry, [ClockRead e, EngineHistory pid]))
   \<and> (\<forall>i e m. \<not> timeout * 1000 < int e \<and> failure_of (reply (history_reply W i)) = Some m \<longrightarrow>
        wait_loop W pid timeout i e = (Inl (Exception m), [ClockRead e, EngineHistory pid]))
   \<and> (\<forall>f h s t. generation_body W cfg req = (Inr (f, h, s), t) \<longrightarrow>
        (\<exists>job entry t2. wait_for_completion W job 300 = (Inr entry, t2)))"
proof -
  note d = wait_for_completion_def
  have a: "c = 504 \<and> d = ''Generation timeout after '' @ str_int timeout @ ''s''
        \<and> clock_reads t \<noteq> [] \<and> timeout * 1000 < int (last (clock_reads t))
        \<and> list_all (\<lambda>x. int x \<le> timeout * 1000) (butlast (clock_reads t))"
    if "wait_for_completion W pid timeout = (Inl (HTTPException c d), t)" for c d t
    using that wait_loop_http [of W pid timeout 0 0 c d t] wait_loop_timed_out [of W pid timeout 0 0 c d t]
    by (simp add: wait_for_completion_def)
  have b: "0 < history_queries t
        \<and> reported (reply (history_reply W (history_queries t - 1))) pid = Some entry
        \<and> (\<forall>j. j < history_queries t - 1 \<longrightarrow> pending (reply (history_reply W j)) pid)
        \<and> last t = EngineHistory pid"
    if "wait_for_completion W pid timeout = (Inr entry, t)" for entry t
    using that wait_loop_returned [of W pid timeout 0 0 entry t]
    by (simp add: wait_for_completion_def)
  have c: "0 < history_queries t
        \<and> failure_of (reply (history_reply W (history_queries t - 1))) = Some m
        \<and> last t = EngineHistory pid"
    if "wait_for_completion W pid timeout = (Inl (Exception m), t)" for m t
    using that wait_loop_raised [of W pid timeout 0 0 m t]
    by (simp add: wait_for_completion_def)
  have e: "fst (wait_for_completion W pid timeout) =
          Inl (HTTPException 504 (''Generation timeout after '' @ str_int timeout @ ''s''))"
    if "\<forall>j. pending (reply (history_reply W j)) pid"
    using that wait_loop_all_pending [of 0 W pid timeout 0]
    by (simp add: wait_for_completion_def)
  have p: "paced pid (snd (wait_for_completion W pid timeout))"
    by (simp add: wait_for_completion_def wait_loop_paced)
  have s: "sorted_wrt (\<lambda>a b. a + 1000 \<le> b) (clock_reads (snd (wait_for_completion W pid timeout)))"
    using wait_loop_clock [of W pid timeout 0 0] by (simp add: wait_for_completion_def)
  show ?thesis
    apply (intro conjI allI impI)
    subgoal by (rule p)
    subgoal by (rule s)
    subgoal using a by blast
    subgoal using a by blast
    subgoal using a by blast
    subgoal using a by blast
    subgoal using a by blast
    subgoal using b by blast
    subgoal using b by blast
    subgoal using b by blast
    subgoal using b by blast
    subgoal using c by blast
    subgoal using c by blast
    subgoal using c by blast
    subgoal using e by blast
    subgoal using wait_loop_pending by blast
    subgoal using wait_loop_reported by blast
    subgoal using wait_loop_failure by blast
    subgoal using generation_body_Inr by blast
    done
qed

lemma stalled_pending: "pending (reply (history_reply stalled_world j)) ''job-1''"
  by (simp add: stalled_world_def pending_def)

lemma stalled_trace:
  "wait_for_completion stalled_world ''job-1'' 2 =
     (Inl (HTTPException 504 (''Generation timeout after '' @ str_int 2 @ ''s'')),
      [ClockRead 0, EngineHistory ''job-1'', Sleep 1,
       ClockRead 1000, EngineHistory ''job-1'', Sleep 1,
       ClockRead 2000, EngineHistory ''job-1'', Sleep 1,
       ClockRead 3000])"
  by (simp add: wait_for_completion_def wait_loop.simps stalled_world_def)

lemma str_int_2: "str_int 2 = ''2''"
  by code_simp

text \<open>
  An engine that answers every query with an empty status document, under a deadline of
  two seconds: four clock readings a second apart, the timeout at the fourth. The calm
  engine reports the job at the first query.
\<close>

theorem wait_for_completion_polling_witness:
  "fst (wait_for_completion stalled_world ''job-1'' 2) =
     Inl (HTTPException 504 ''Generation timeout after 2s'')
   \<and> clock_reads (snd (wait_for_completion stalled_world ''job-1'' 2)) = [0, 1000, 2000, 3000]
   \<and> wait_for_completion calm_world ''job-1'' 300 =
       (Inr sample_record, [ClockRead 0, EngineHistory ''job-1''])"
proof -
  note T = wait_for_completion_polling [of "''job-1''" stalled_world 2]
  have "\<forall>j. pending (reply (history_reply stalled_world j)) ''job-1''"
    using stalled_pending by simp
  with T have "fst (wait_for_completion stalled_world ''job-1'' 2) =
      Inl (HTTPException 504 (''Generation timeout after '' @ str_int 2 @ ''s''))"
    by blast
  then have 1: "fst (wait_for_completion stalled_world ''job-1'' 2) =
     Inl (HTTPException 504 ''Generation timeout after 2s'')"
    by (simp add: str_int_2)
  have 2: "clock_reads (snd (wait_for_completion stalled_world ''job-1'' 2)) = [0, 1000, 2000, 3000]"
    by (simp add: stalled_trace)
  note C = wait_for_completion_polling [of "''job-1''" calm_world 300]
  have "\<not> (300::int) * 1000 < int 0 \<and> reported (reply (history_reply calm_world 0)) ''job-1'' = Some sample_record"
    by (simp add: calm_world_def reported_def)
  with C have "wait_loop calm_world ''job-1'' 300 0 0 = (Inr sample_record, [ClockRead 0, EngineHistory ''job-1''])"
    by blast
  then have 3: "wait_for_completion calm_world ''job-1'' 300 =
       (Inr sample_record, [ClockRead 0, EngineHistory ''job-1''])"
    by (simp add: wait_for_completion_def)
  from 1 2 3 show ?thesis by (intro conjI)
qed

text \<open>
  Against C5 as stated: the first status query cannot reach the engine. It does not report
  the handle, yet the loop does not go on polling until the deadline of 300 seconds: it
  ends at once, at elapsed time 0, with the connection error.
\<close>

theorem unreachable_engine_ends_polling:
  "wait_for_completion unreachable_world ''job-1'' 300 =
     (Inl (Exception ''ConnectError''), [ClockRead 0, EngineHistory ''job-1''])"
  by (simp add: wait_for_completion_def wait_loop.simps [of _ _ _ 0 0] unreachable_world_def)

end
